theory Spec2Isabelle
  imports Complex_Main "HOL-Library.Log_Nat"
begin

section \<open>JavaScript values used by the orchestrator\<close>

text \<open>
  The video-generation orchestrator is \<^verbatim>\<open>VideoGenerationService\<close> in
  \<^verbatim>\<open>backend/src/services/socialMediaService.js\<close>, over the document model of
  \<^verbatim>\<open>backend/src/models/Video.js\<close>. A field that may be \<^verbatim>\<open>undefined\<close> is an
  \<open>option\<close>; dates are milliseconds since the epoch (\<open>int\<close>); a thrown
  \<^verbatim>\<open>Error\<close> is its message, on the left of a sum.
\<close>

definition truthy :: "string option \<Rightarrow> bool" where
  \<comment> \<open>a string in a condition: \<^verbatim>\<open>undefined\<close> and \<^verbatim>\<open>''\<close> are falsy\<close>
  "truthy s = (case s of None \<Rightarrow> False | Some x \<Rightarrow> x \<noteq> [])"

definition startsWith :: "string \<Rightarrow> string \<Rightarrow> bool" where
  "startsWith s pat = (take (length pat) s = pat)"

fun str_includes :: "string \<Rightarrow> string \<Rightarrow> bool" where
  \<comment> \<open>\<^verbatim>\<open>s.includes(pat)\<close>\<close>
  "str_includes [] pat = (pat = [])"
| "str_includes (c # cs) pat = (startsWith (c # cs) pat \<or> str_includes cs pat)"

fun replace :: "string \<Rightarrow> string \<Rightarrow> string \<Rightarrow> string" where
  \<comment> \<open>\<^verbatim>\<open>s.replace(pat, rep)\<close> with a string pattern: the first occurrence only\<close>
  "replace [] pat rep = (if pat = [] then rep else [])"
| "replace (c # cs) pat rep =
     (if startsWith (c # cs) pat then rep @ drop (length pat) (c # cs)
      else c # replace cs pat rep)"

definition basename :: "string \<Rightarrow> string" where
  \<comment> \<open>\<^verbatim>\<open>path.basename\<close>: the last segment, trailing separators dropped\<close>
  "basename p =
     rev (takeWhile (\<lambda>c. c \<noteq> CHR ''/'') (dropWhile (\<lambda>c. c = CHR ''/'') (rev p)))"

definition sevenDays :: int where
  "sevenDays = 7 * 24 * 60 * 60 * 1000"

text \<open>
  A JavaScript number is an IEEE 754 double. \<open>double x\<close> is the result of an
  arithmetic operation whose exact value is \<open>x\<close>: the nearest number with 53
  significant bits, a tie going to the even significand. \<open>exponent y\<close> is the \<open>e\<close>
  with \<open>2 ^ e \<le> y < 2 ^ (e + 1)\<close>. The exponent range is not modelled: a time is a
  whole number of milliseconds of absolute value at most 8.64e15 (the range of
  \<^verbatim>\<open>Date\<close>), which a double holds exactly, and no sum, difference or quotient of
  the scan leaves the range of normal doubles.
\<close>

definition roundTiesToEven :: "rat \<Rightarrow> int" where
  "roundTiesToEven m =
     (let n = \<lfloor>m\<rfloor>; r = m - of_int n
      in if r < 1 / 2 then n else if 1 / 2 < r then n + 1 else if even n then n else n + 1)"

definition exponent :: "rat \<Rightarrow> int" where
  "exponent y = (if 1 \<le> y then bitlen \<lfloor>y\<rfloor> - 1 else - bitlen (\<lceil>1 / y\<rceil> - 1))"

definition double :: "rat \<Rightarrow> rat" where
  "double x =
     (if x = 0 then 0
      else let u = 2 powi (exponent \<bar>x\<bar> - 52)
           in sgn x * (of_int (roundTiesToEven (\<bar>x\<bar> / u)) * u))"

section \<open>The job record (models/Video.js)\<close>

datatype status = Pending | Processing | Completed | Failed

datatype video_type = TextToVideo | ImageToVideo

record input_image =
  image_gcsUri :: "string option"
  mimetype :: "string option"

record video_info =
  url :: "string option"
  urlExpiry :: "int option"
  filename :: "string option"
  vsize :: "nat option"
  gcsUri :: "string option"
  localPath :: "string option"
  vdata :: "string option"
  contentType :: string

record op_response =
  videoUri :: "string option"
  outputUri :: "string option"

record op_error =
  message :: "string option"

record operation =
  op_name :: "string option"
  op_done :: bool
  op_metadata :: "string option"
  op_response :: "op_response option"
  op_error :: "op_error option"

record processing_info =
  startedAt :: "int option"
  completedAt :: "int option"
  errorMessage :: "string option"

record video_doc =
  vid :: nat
  user :: nat
  isPrivate :: bool
  status :: status
  videoType :: video_type
  inputImage :: input_image
  video :: video_info
  operation :: operation
  processingInfo :: processing_info
  views :: nat

section \<open>The world: database, bucket, clock\<close>

record gcs_file =
  name :: string
  timeCreated :: int
  fsize :: nat
  file_contentType :: "string option"

text \<open>
  \<open>db\<close> is the Video collection, \<open>files\<close> the objects of the bucket, \<open>clock\<close>
  what \<^verbatim>\<open>Date.now()\<close> reads. \<open>writes\<close> records every document handed to
  \<^verbatim>\<open>save()\<close>, in order, and \<open>cleanup_log\<close> every object whose existence
  \<^verbatim>\<open>cleanupTemporaryImage\<close> asked the bucket about: they make the order of
  writes and the cleanup attempts observable.
\<close>

record world =
  db :: "video_doc list"
  files :: "gcs_file list"
  clock :: int
  writes :: "video_doc list"
  cleanup_log :: "string list"

text \<open>
  The module-level configuration. \<open>bucket_ok\<close> and \<open>auth_ok\<close> say whether
  \<^verbatim>\<open>bucket\<close> and \<^verbatim>\<open>auth\<close> were initialised. The storage client signs URLs
  (\<open>getSignedUrl path expires\<close>); the texts of the errors raised by the storage
  client for a missing object and by the runtime for a call on the undefined
  \<^verbatim>\<open>bucket\<close> are parameters, as is the local file system.

  A request to the database or to a configured bucket is taken to be answered: the
  failures of storage that the model has are a missing object and a bucket that is not
  configured. A request to the synthesis API can fail. One call reads the clock once;
  time passes in the waits of the poll loop.
\<close>

record config =
  BUCKET_NAME :: string
  bucket_ok :: bool
  auth_ok :: bool
  getSignedUrl :: "string \<Rightarrow> int \<Rightarrow> string"
  missing_object_error :: "string \<Rightarrow> string"
  no_bucket_error :: string
  local_fs :: "string \<Rightarrow> string option"

text \<open>
  The external synthesis API: the access token it grants (or not), its answer to
  the submission of a job and its answer to a status query for an operation name at
  a time. \<open>None\<close> and \<open>Inl\<close> are failed requests.
\<close>

record submission =
  operationName :: "string option"
  sub_done :: bool
  sub_metadata :: "string option"
  sub_response :: "op_response option"

record op_status =
  s_done :: bool
  s_metadata :: "string option"
  s_response :: "op_response option"
  s_error :: "op_error option"

record provider =
  token :: "string option"
  submit_reply :: "video_doc \<Rightarrow> string + submission"
  status_reply :: "int \<Rightarrow> string \<Rightarrow> op_status option"

definition findById :: "nat \<Rightarrow> video_doc list \<Rightarrow> video_doc option" where
  "findById i d = find (\<lambda>v. vid v = i) d"

definition save :: "video_doc \<Rightarrow> world \<Rightarrow> world" where
  "save v w = w\<lparr>db := map (\<lambda>u. if vid u = vid v then v else u) (db w),
                writes := writes w @ [v]\<rparr>"

definition sleep :: "int \<Rightarrow> world \<Rightarrow> world" where
  "sleep ms w = w\<lparr>clock := clock w + ms\<rparr>"

definition updateStatus ::
  "status \<Rightarrow> string option \<Rightarrow> video_doc \<Rightarrow> world \<Rightarrow> video_doc \<times> world" where
  \<comment> \<open>\<^verbatim>\<open>videoSchema.methods.updateStatus(status, {errorMessage})\<close>\<close>
  "updateStatus s msg this w =
     (let v1 = this\<lparr>status := s\<rparr>;
          v2 = (if s = Processing \<and> startedAt (processingInfo v1) = None
                then v1\<lparr>processingInfo := (processingInfo v1)\<lparr>startedAt := Some (clock w)\<rparr>\<rparr>
                else if s = Completed
                then v1\<lparr>processingInfo := (processingInfo v1)\<lparr>completedAt := Some (clock w)\<rparr>\<rparr>
                else if s = Failed
                then v1\<lparr>processingInfo := (processingInfo v1)\<lparr>errorMessage := msg\<rparr>\<rparr>
                else v1)
      in (v2, save v2 w))"

definition incrementViews :: "video_doc \<Rightarrow> world \<Rightarrow> video_doc \<times> world" where
  "incrementViews this w = (let v1 = this\<lparr>views := views this + 1\<rparr> in (v1, save v1 w))"

section \<open>Bucket reconciliation (checkVideoInBucket)\<close>

definition getFiles :: "string \<Rightarrow> gcs_file list \<Rightarrow> gcs_file list" where
  \<comment> \<open>\<^verbatim>\<open>bucket.getFiles({prefix})\<close>\<close>
  "getFiles pre fs = filter (\<lambda>f. startsWith (name f) pre) fs"

definition getMetadata :: "string \<Rightarrow> gcs_file list \<Rightarrow> gcs_file option" where
  "getMetadata p fs = find (\<lambda>f. name f = p) fs"

definition score :: "int \<Rightarrow> gcs_file \<Rightarrow> rat" where
  \<comment> \<open>\<^verbatim>\<open>timeDiff = Math.abs(fileTime.getTime() - videoStartTime.getTime())\<close>,
      \<^verbatim>\<open>score = 1 / (timeDiff + 1)\<close>, each operation rounded to a double\<close>
  "score videoStartTime file =
     (let timeDiff = \<bar>double (of_int (timeCreated file) - of_int videoStartTime)\<bar>
      in double (1 / double (timeDiff + 1)))"

fun scanFiles :: "int \<Rightarrow> gcs_file list \<Rightarrow> gcs_file option \<times> rat \<Rightarrow> gcs_file option \<times> rat" where
  \<comment> \<open>the \<^verbatim>\<open>for (const file of files)\<close> loop over (bestMatch, bestMatchScore)\<close>
  "scanFiles videoStartTime [] best = best"
| "scanFiles videoStartTime (file # rest) (bestMatch, bestMatchScore) =
     (if str_includes (name file) ''.mp4'' \<or> str_includes (name file) ''.mov'' then
        if timeCreated file \<ge> videoStartTime then
          if score videoStartTime file > bestMatchScore
          then scanFiles videoStartTime rest (Some file, score videoStartTime file)
          else scanFiles videoStartTime rest (bestMatch, bestMatchScore)
        else scanFiles videoStartTime rest (bestMatch, bestMatchScore)
      else scanFiles videoStartTime rest (bestMatch, bestMatchScore))"

definition checkVideoInBucket :: "config \<Rightarrow> world \<Rightarrow> nat \<Rightarrow> string option" where
  "checkVideoInBucket cfg w videoId =
     (if \<not> bucket_ok cfg then None
      else case findById videoId (db w) of
        None \<Rightarrow> None
      | Some doc \<Rightarrow>
          (case startedAt (processingInfo doc) of
             None \<Rightarrow> None
           | Some videoStartTime \<Rightarrow>
               (case fst (scanFiles videoStartTime
                            (getFiles ''generated-videos/'' (files w)) (None, 0)) of
                  None \<Rightarrow> None
                | Some bestMatch \<Rightarrow>
                    Some (''gs://'' @ BUCKET_NAME cfg @ ''/'' @ name bestMatch))))"

section \<open>Completion handler and cleanup\<close>

definition gcsPathOf :: "config \<Rightarrow> string \<Rightarrow> string" where
  \<comment> \<open>\<^verbatim>\<open>uri.replace(`gs://${BUCKET_NAME}/`, '')\<close>\<close>
  "gcsPathOf cfg uri = replace uri (''gs://'' @ BUCKET_NAME cfg @ ''/'') []"

definition cleanupTemporaryImage :: "config \<Rightarrow> string option \<Rightarrow> world \<Rightarrow> world" where
  \<comment> \<open>asks whether the object exists, deletes it if so; never throws\<close>
  "cleanupTemporaryImage cfg uri w =
     (if \<not> bucket_ok cfg \<or> \<not> truthy uri then w
      else let gcsPath = gcsPathOf cfg (the uri)
           in w\<lparr>files := filter (\<lambda>f. name f \<noteq> gcsPath) (files w),
                cleanup_log := cleanup_log w @ [gcsPath]\<rparr>)"

definition mockStatus :: "string \<Rightarrow> op_status" where
  "mockStatus bucketVideoUri =
     \<lparr>s_done = True, s_metadata = None,
      s_response = Some \<lparr>videoUri = Some bucketVideoUri, outputUri = None\<rparr>,
      s_error = None\<rparr>"

definition payloadUri :: "op_status \<Rightarrow> string option" where
  \<comment> \<open>\<^verbatim>\<open>status.response?.videoUri || status.response?.outputUri\<close>\<close>
  "payloadUri st =
     (case s_response st of
        None \<Rightarrow> None
      | Some r \<Rightarrow> if truthy (videoUri r) then videoUri r else outputUri r)"

definition failGeneration :: "string \<Rightarrow> video_doc \<Rightarrow> world \<Rightarrow> (string + unit) \<times> world" where
  \<comment> \<open>the \<^verbatim>\<open>catch\<close> of handleSuccessfulGeneration: mark failed, rethrow\<close>
  "failGeneration msg doc w = (Inl msg, snd (updateStatus Failed (Some msg) doc w))"

definition handleSuccessfulGeneration ::
  "config \<Rightarrow> video_doc \<Rightarrow> op_status \<Rightarrow> world \<Rightarrow> (string + unit) \<times> world" where
  "handleSuccessfulGeneration cfg doc st w =
     (if \<not> truthy (payloadUri st) then failGeneration ''No video URI in response'' doc w
      else
        let uri = the (payloadUri st);
            gcsPath = gcsPathOf cfg uri
        in if \<not> bucket_ok cfg then failGeneration (no_bucket_error cfg) doc w
           else case getMetadata gcsPath (files w) of
             None \<Rightarrow> failGeneration (missing_object_error cfg gcsPath) doc w
           | Some metadata \<Rightarrow>
               let signedUrl = getSignedUrl cfg gcsPath (clock w + sevenDays);
                   doc1 = doc\<lparr>video := (video doc)\<lparr>
                            gcsUri := Some uri,
                            url := Some signedUrl,
                            urlExpiry := Some (clock w + sevenDays),
                            filename := Some (basename gcsPath),
                            vsize := Some (fsize metadata),
                            contentType :=
                              (if truthy (file_contentType metadata)
                               then the (file_contentType metadata) else ''video/mp4'')\<rparr>\<rparr>;
                   (doc2, w2) = updateStatus Completed None doc1 w;
                   w3 = (if truthy (image_gcsUri (inputImage doc2))
                         then cleanupTemporaryImage cfg (image_gcsUri (inputImage doc2)) w2
                         else w2)
               in (Inr (), w3))"

section \<open>Submission and polling\<close>

definition getAccessToken :: "config \<Rightarrow> provider \<Rightarrow> string + string" where
  "getAccessToken cfg prov =
     (if \<not> auth_ok cfg
      then Inl ''Google Cloud not configured. Please set up your Google Cloud credentials.''
      else case token prov of
        None \<Rightarrow> Inl ''Failed to authenticate with Google Cloud''
      | Some t \<Rightarrow> Inr t)"

definition generateVideo :: "config \<Rightarrow> provider \<Rightarrow> video_doc \<Rightarrow> string + submission" where
  \<comment> \<open>the request body is built from the document and is the provider's business;
      every failure is rethrown as \<^verbatim>\<open>Video generation failed: ...\<close>\<close>
  "generateVideo cfg prov videoData =
     (case getAccessToken cfg prov of
        Inl m \<Rightarrow> Inl (''Video generation failed: '' @ m)
      | Inr t \<Rightarrow>
          if videoType videoData = ImageToVideo
             \<and> \<not> truthy (image_gcsUri (inputImage videoData))
          then Inl (''Video generation failed: ''
                    @ ''Image GCS URI is required for image-to-video generation'')
          else if videoType videoData = ImageToVideo
             \<and> \<not> truthy (mimetype (inputImage videoData))
          then Inl (''Video generation failed: ''
                    @ ''Image MIME type is required for image-to-video generation'')
          else (case submit_reply prov videoData of
                  Inl m \<Rightarrow> Inl (''Video generation failed: '' @ m)
                | Inr r \<Rightarrow> Inr r))"

definition checkOperationStatus ::
  "config \<Rightarrow> provider \<Rightarrow> int \<Rightarrow> string \<Rightarrow> string + op_status" where
  "checkOperationStatus cfg prov now opName =
     (case getAccessToken cfg prov of
        Inl m \<Rightarrow> Inl ''Failed to check operation status''
      | Inr t \<Rightarrow>
          (case status_reply prov now opName of
             None \<Rightarrow> Inl ''Failed to check operation status''
           | Some st \<Rightarrow> Inr st))"

datatype outcome = Break | Continue | Thrown string

definition completeOrThrow ::
  "config \<Rightarrow> video_doc \<Rightarrow> op_status \<Rightarrow> world \<Rightarrow> outcome \<times> world" where
  \<comment> \<open>\<^verbatim>\<open>await this.handleSuccessfulGeneration(video, status); break;\<close>\<close>
  "completeOrThrow cfg doc st w =
     (case handleSuccessfulGeneration cfg doc st w of
        (Inl m, w') \<Rightarrow> (Thrown m, w')
      | (Inr u, w') \<Rightarrow> (Break, w'))"

definition pollAttempt :: "config \<Rightarrow> provider \<Rightarrow> nat \<Rightarrow> world \<Rightarrow> outcome \<times> world" where
  \<comment> \<open>the \<^verbatim>\<open>try\<close> block of one iteration, up to the wait\<close>
  "pollAttempt cfg prov videoId w =
     (case findById videoId (db w) of
        None \<Rightarrow> (Thrown ''Video not found'', w)
      | Some doc \<Rightarrow>
          let (operationStatus, doc1, w1) =
                (if truthy (op_name (operation doc)) then
                   case checkOperationStatus cfg prov (clock w) (the (op_name (operation doc))) of
                     Inl m \<Rightarrow> (None, doc, w)
                   | Inr st \<Rightarrow>
                       let d = doc\<lparr>operation := (operation doc)\<lparr>
                                 op_done := s_done st, op_metadata := s_metadata st,
                                 op_response := s_response st, op_error := s_error st\<rparr>\<rparr>
                       in (Some st, d, save d w)
                 else (None, doc, w))
          in if (case operationStatus of None \<Rightarrow> False | Some st \<Rightarrow> s_done st) then
               let st = the operationStatus in
               (case s_error st of
                  Some e \<Rightarrow>
                    let msg = (if truthy (message e) then the (message e)
                               else ''Video generation failed'')
                    in (Thrown msg, snd (updateStatus Failed (Some msg) doc1 w1))
                | None \<Rightarrow> completeOrThrow cfg doc1 st w1)
             else
               (case checkVideoInBucket cfg w1 videoId of
                  Some bucketVideoUri \<Rightarrow> completeOrThrow cfg doc1 (mockStatus bucketVideoUri) w1
                | None \<Rightarrow> (Continue, w1)))"

definition timeOut :: "nat \<Rightarrow> world \<Rightarrow> (string + unit) \<times> world" where
  \<comment> \<open>the \<^verbatim>\<open>catch\<close> block once \<^verbatim>\<open>attempts >= maxAttempts - 1\<close>\<close>
  "timeOut videoId w =
     (case findById videoId (db w) of
        None \<Rightarrow> (Inl ''Video generation timed out'', w)
      | Some doc \<Rightarrow>
          (Inl ''Video generation timed out'',
           snd (updateStatus Failed (Some ''Operation timed out'') doc w)))"

text \<open>
  The \<^verbatim>\<open>while\<close> loop can run forever (a caught error does not count as an
  attempt), so it runs on fuel: one unit per iteration, \<open>None\<close> when the fuel is
  used up before the loop has left.
\<close>

fun pollLoop ::
  "nat \<Rightarrow> config \<Rightarrow> provider \<Rightarrow> nat \<Rightarrow> int \<Rightarrow> int \<Rightarrow> world
     \<Rightarrow> ((string + unit) \<times> world) option" where
  "pollLoop 0 cfg prov videoId maxAttempts attempts w = None"
| "pollLoop (Suc fuel) cfg prov videoId maxAttempts attempts w =
     (if attempts < maxAttempts then
        case pollAttempt cfg prov videoId w of
          (Break, w1) \<Rightarrow> Some (Inr (), w1)
        | (Continue, w1) \<Rightarrow>
            pollLoop fuel cfg prov videoId maxAttempts (attempts + 1) (sleep 10000 w1)
        | (Thrown e, w1) \<Rightarrow>
            if attempts \<ge> maxAttempts - 1 then Some (timeOut videoId w1)
            else pollLoop fuel cfg prov videoId maxAttempts attempts (sleep 5000 w1)
      else Some (Inr (), w))"

definition pollForCompletion ::
  "nat \<Rightarrow> config \<Rightarrow> provider \<Rightarrow> nat \<Rightarrow> int \<Rightarrow> world \<Rightarrow> ((string + unit) \<times> world) option" where
  "pollForCompletion fuel cfg prov videoId maxAttempts w =
     pollLoop fuel cfg prov videoId maxAttempts 0 w"

definition assignOperation :: "submission \<Rightarrow> operation" where
  \<comment> \<open>\<^verbatim>\<open>video.operation = operation\<close>: the object returned by generateVideo has the
      keys operationName, done, metadata, response; there is no key \<^verbatim>\<open>name\<close>, and
      the schema has no path \<^verbatim>\<open>operation.operationName\<close>\<close>
  "assignOperation sub =
     \<lparr>op_name = None, op_done = sub_done sub, op_metadata = sub_metadata sub,
      op_response = sub_response sub, op_error = None\<rparr>"

definition failProcess :: "nat \<Rightarrow> config \<Rightarrow> string \<Rightarrow> world \<Rightarrow> (string + unit) \<times> world" where
  \<comment> \<open>the \<^verbatim>\<open>catch\<close> of processVideoGeneration\<close>
  "failProcess videoId cfg msg w =
     (case findById videoId (db w) of
        None \<Rightarrow> (Inl msg, w)
      | Some doc \<Rightarrow>
          let (doc1, w1) = updateStatus Failed (Some msg) doc w;
              w2 = (if truthy (image_gcsUri (inputImage doc1))
                    then cleanupTemporaryImage cfg (image_gcsUri (inputImage doc1)) w1
                    else w1)
          in (Inl msg, w2))"

definition processVideoGeneration ::
  "nat \<Rightarrow> config \<Rightarrow> provider \<Rightarrow> nat \<Rightarrow> world \<Rightarrow> ((string + unit) \<times> world) option" where
  "processVideoGeneration fuel cfg prov videoId w =
     (let r = (case findById videoId (db w) of
                 None \<Rightarrow> Some (Inl ''Video not found'', w)
               | Some doc \<Rightarrow>
                   let (doc1, w1) = updateStatus Processing None doc w in
                   (case generateVideo cfg prov doc1 of
                      Inl m \<Rightarrow> Some (Inl m, w1)
                    | Inr sub \<Rightarrow>
                        let doc2 = doc1\<lparr>operation := assignOperation sub\<rparr>;
                            w2 = save doc2 w1
                        in pollForCompletion fuel cfg prov videoId 60 w2))
      in case r of
           None \<Rightarrow> None
         | Some (Inr u, w') \<Rightarrow> Some (Inr u, w')
         | Some (Inl msg, w') \<Rightarrow> Some (failProcess videoId cfg msg w'))"

section \<open>Reading the artifact\<close>

definition refreshSignedUrl ::
  "config \<Rightarrow> video_doc \<Rightarrow> world \<Rightarrow> string option \<times> video_doc \<times> world" where
  "refreshSignedUrl cfg doc w =
     (if \<not> truthy (gcsUri (video doc)) \<or> \<not> bucket_ok cfg then (url (video doc), doc, w)
      else
        let gcsPath = gcsPathOf cfg (the (gcsUri (video doc)));
            signedUrl = getSignedUrl cfg gcsPath (clock w + sevenDays);
            doc1 = doc\<lparr>video := (video doc)\<lparr>url := Some signedUrl,
                                              urlExpiry := Some (clock w + sevenDays)\<rparr>\<rparr>
        in (Some signedUrl, doc1, save doc1 w))"

datatype video_data =
  Redirect (redirectUrl: "string option") string "string option" "nat option"
| Binary string string "string option" "nat option"

definition orMp4 :: "string \<Rightarrow> string" where
  \<comment> \<open>\<^verbatim>\<open>video.video.contentType || 'video/mp4'\<close>\<close>
  "orMp4 c = (if c = [] then ''video/mp4'' else c)"

definition getVideoData ::
  "config \<Rightarrow> nat \<Rightarrow> nat \<Rightarrow> world \<Rightarrow> (string + video_data) \<times> world" where
  "getVideoData cfg videoId userId w =
     (case findById videoId (db w) of
        None \<Rightarrow> (Inl ''Video not found'', w)
      | Some doc \<Rightarrow>
          if user doc \<noteq> userId \<and> isPrivate doc then (Inl ''Access denied'', w)
          else if truthy (url (video doc)) then
            let (currentUrl, doc1, w1) =
                  (if urlExpiry (video doc) \<noteq> None \<and> clock w > the (urlExpiry (video doc))
                   then refreshSignedUrl cfg doc w
                   else (url (video doc), doc, w));
                (doc2, w2) = incrementViews doc1 w1
            in (Inr (Redirect currentUrl (orMp4 (contentType (video doc2)))
                       (filename (video doc2)) (vsize (video doc2))), w2)
          else if vdata (video doc) \<noteq> None then
            let (doc2, w2) = incrementViews doc w
            in (Inr (Binary (the (vdata (video doc2))) (orMp4 (contentType (video doc2)))
                       (filename (video doc2)) (vsize (video doc2))), w2)
          else if truthy (localPath (video doc))
                  \<and> local_fs cfg (the (localPath (video doc))) \<noteq> None then
            let fileData = the (local_fs cfg (the (localPath (video doc))));
                (doc2, w2) = incrementViews doc w
            in (Inr (Binary fileData (orMp4 (contentType (video doc2)))
                       (filename (video doc2)) (Some (length fileData))), w2)
          else (Inl (''Video data not found - ''
                     @ ''no URL, binary data, or local file available''), w))"

section \<open>Stuck-job recovery\<close>

fun sweepLoop :: "config \<Rightarrow> video_doc list \<Rightarrow> world \<times> nat \<Rightarrow> world \<times> nat" where
  \<comment> \<open>\<^verbatim>\<open>for (const video of processingVideos)\<close>, over (world, completedCount); an
      error of the handler is logged and the loop goes on\<close>
  "sweepLoop cfg [] (w, completedCount) = (w, completedCount)"
| "sweepLoop cfg (doc # rest) (w, completedCount) =
     (case checkVideoInBucket cfg w (vid doc) of
        Some bucketVideoUri \<Rightarrow>
          (case handleSuccessfulGeneration cfg doc (mockStatus bucketVideoUri) w of
             (Inr u, w1) \<Rightarrow> sweepLoop cfg rest (w1, completedCount + 1)
           | (Inl m, w1) \<Rightarrow> sweepLoop cfg rest (w1, completedCount))
      | None \<Rightarrow> sweepLoop cfg rest (w, completedCount))"

definition checkAndCompleteStuckVideos :: "config \<Rightarrow> world \<Rightarrow> (nat \<times> nat) \<times> world" where
  \<comment> \<open>returns ((completedCount, totalProcessing), world)\<close>
  "checkAndCompleteStuckVideos cfg w =
     (let processingVideos = filter (\<lambda>v. status v = Processing) (db w);
          (w1, completedCount) = sweepLoop cfg processingVideos (w, 0)
      in ((completedCount, length processingVideos), w1))"

definition forceCompletionCheck ::
  "config \<Rightarrow> nat \<Rightarrow> world \<Rightarrow> (string + string \<times> status) \<times> world" where
  "forceCompletionCheck cfg videoId w =
     (case findById videoId (db w) of
        None \<Rightarrow> (Inl ''Video not found'', w)
      | Some doc \<Rightarrow>
          if status doc \<noteq> Processing
          then (Inr (''Video is not in processing state'', status doc), w)
          else
            (case checkVideoInBucket cfg w videoId of
               Some bucketVideoUri \<Rightarrow>
                 (case handleSuccessfulGeneration cfg doc (mockStatus bucketVideoUri) w of
                    (Inl m, w1) \<Rightarrow> (Inl m, w1)
                  | (Inr u, w1) \<Rightarrow> (Inr (''Video completed successfully'', Completed), w1))
             | None \<Rightarrow>
                 (Inr (''Video not found in bucket, still processing'', Processing), w)))"

section \<open>Notions used in the statements\<close>

definition qualifies :: "int \<Rightarrow> gcs_file \<Rightarrow> bool" where
  \<comment> \<open>the objects the scan scores: \<^verbatim>\<open>.mp4\<close> or \<^verbatim>\<open>.mov\<close> somewhere in the name, and
      created at or after the start\<close>
  "qualifies t0 f =
     ((str_includes (name f) ''.mp4'' \<or> str_includes (name f) ''.mov'') \<and> timeCreated f \<ge> t0)"



definition pickBetter :: "int \<Rightarrow> gcs_file option \<times> rat \<Rightarrow> gcs_file \<Rightarrow> gcs_file option \<times> rat" where
  \<comment> \<open>one step of the scan on a qualifying object\<close>
  "pickBetter t0 best f = (if score t0 f > snd best then (Some f, score t0 f) else best)"

definition completedDoc :: "config \<Rightarrow> video_doc \<Rightarrow> string \<Rightarrow> gcs_file \<Rightarrow> int \<Rightarrow> video_doc" where
  \<comment> \<open>the document the handler writes for payload \<open>uri\<close>, storage metadata and time\<close>
  "completedDoc cfg doc uri metadata now =
     doc\<lparr>video := (video doc)\<lparr>
            gcsUri := Some uri,
            url := Some (getSignedUrl cfg (gcsPathOf cfg uri) (now + sevenDays)),
            urlExpiry := Some (now + sevenDays),
            filename := Some (basename (gcsPathOf cfg uri)),
            vsize := Some (fsize metadata),
            contentType := (if truthy (file_contentType metadata)
                            then the (file_contentType metadata) else ''video/mp4'')\<rparr>,
         status := Completed,
         processingInfo := (processingInfo doc)\<lparr>completedAt := Some now\<rparr>\<rparr>"

definition artifact_populated :: "video_doc \<Rightarrow> bool" where
  "artifact_populated doc = (url (video doc) \<noteq> None \<or> gcsUri (video doc) \<noteq> None)"

definition consistent :: "video_doc \<Rightarrow> bool" where
  \<comment> \<open>artifact iff completed, error message iff failed\<close>
  "consistent doc =
     ((artifact_populated doc \<longleftrightarrow> status doc = Completed)
      \<and> (errorMessage (processingInfo doc) \<noteq> None \<longleftrightarrow> status doc = Failed))"

definition all_consistent :: "world \<Rightarrow> bool" where
  "all_consistent w = list_all consistent (db w)"

definition summary :: "world \<Rightarrow> (status \<times> string option \<times> string option) list" where
  \<comment> \<open>status, error message and operation name of every job\<close>
  "summary w = map (\<lambda>d. (status d, errorMessage (processingInfo d), op_name (operation d))) (db w)"

definition objectUri :: "config \<Rightarrow> gcs_file \<Rightarrow> string" where
  "objectUri cfg f = ''gs://'' @ BUCKET_NAME cfg @ ''/'' @ name f"

definition candidateFor :: "gcs_file list \<Rightarrow> video_doc \<Rightarrow> gcs_file option" where
  \<comment> \<open>the best match of the scan for a job, given the listing\<close>
  "candidateFor listing doc =
     (case startedAt (processingInfo doc) of
        None \<Rightarrow> None
      | Some t0 \<Rightarrow> fst (scanFiles t0 listing (None, 0)))"

definition finish :: "config \<Rightarrow> gcs_file list \<Rightarrow> int \<Rightarrow> video_doc \<Rightarrow> video_doc" where
  \<comment> \<open>a job after the sweep, for a listing and a time\<close>
  "finish cfg listing now doc =
     (case candidateFor listing doc of
        None \<Rightarrow> doc
      | Some f \<Rightarrow> completedDoc cfg doc (objectUri cfg f)
                   (the (find (\<lambda>g. name g = name f) listing)) now)"

definition sweptDoc :: "config \<Rightarrow> world \<Rightarrow> video_doc \<Rightarrow> video_doc" where
  \<comment> \<open>what the sweep is claimed to make of a job: completed with the candidate of the
      bucket scan if the job is in processing and has one, untouched otherwise\<close>
  "sweptDoc cfg w d =
     (if status d = Processing then
        (case checkVideoInBucket cfg w (vid d) of
           None \<Rightarrow> d
         | Some uri \<Rightarrow>
             completedDoc cfg d uri (the (getMetadata (gcsPathOf cfg uri) (files w))) (clock w))
      else d)"

definition images_apart :: "config \<Rightarrow> video_doc list \<Rightarrow> bool" where
  \<comment> \<open>no input image lies under the output prefix (uploadImageToGCS stores them under
      \<^verbatim>\<open>input-images/\<close>)\<close>
  "images_apart cfg docs =
     list_all (\<lambda>d. truthy (image_gcsUri (inputImage d))
                  \<longrightarrow> \<not> startsWith (gcsPathOf cfg (the (image_gcsUri (inputImage d))))
                         ''generated-videos/'') docs"

section \<open>Sample data\<close>

definition demo_cfg :: config where
  "demo_cfg =
     \<lparr>BUCKET_NAME = ''media'', bucket_ok = True, auth_ok = True,
      getSignedUrl = (\<lambda>p e. ''https://storage.example/'' @ p),
      missing_object_error = (\<lambda>p. ''No such object: '' @ p),
      no_bucket_error = ''Cannot read properties of undefined'',
      local_fs = (\<lambda>p. None)\<rparr>"

definition demo_job :: video_doc where
  \<comment> \<open>a job in processing, started at time 1000, with an operation name\<close>
  "demo_job =
     \<lparr>vid = 1, user = 7, isPrivate = True, status = Processing, videoType = TextToVideo,
      inputImage = \<lparr>image_gcsUri = None, mimetype = None\<rparr>,
      video = \<lparr>url = None, urlExpiry = None, filename = None, vsize = None, gcsUri = None,
               localPath = None, vdata = None, contentType = ''video/mp4''\<rparr>,
      operation = \<lparr>op_name = Some ''operations/1'', op_done = False, op_metadata = None,
                   op_response = None, op_error = None\<rparr>,
      processingInfo = \<lparr>startedAt = Some 1000, completedAt = None, errorMessage = None\<rparr>,
      views = 0\<rparr>"

definition demo_clip :: gcs_file where
  \<comment> \<open>an output object created 2 seconds after the start of \<open>demo_job\<close>\<close>
  "demo_clip = \<lparr>name = ''generated-videos/clip.mp4'', timeCreated = 3000, fsize = 4096,
                file_contentType = Some ''video/mp4''\<rparr>"

definition demo_world :: world where
  "demo_world = \<lparr>db = [demo_job], files = [demo_clip], clock = 5000, writes = [],
                 cleanup_log = []\<rparr>"




definition far_clip :: gcs_file where
  "far_clip = \<lparr>name = ''generated-videos/far.mp4'', timeCreated = 10000, fsize = 1,
               file_contentType = None\<rparr>"

definition near_clip :: gcs_file where
  "near_clip = \<lparr>name = ''generated-videos/near.mov'', timeCreated = 3000, fsize = 1,
                file_contentType = None\<rparr>"





definition epoch_job :: video_doc where
  \<comment> \<open>\<open>demo_job\<close> with the start at time 0\<close>
  "epoch_job = demo_job\<lparr>processingInfo :=
                 \<lparr>startedAt = Some 0, completedAt = None, errorMessage = None\<rparr>\<rparr>"

definition distant_world :: world where
  \<comment> \<open>two videos more than \<open>2 ^ 52\<close> ms after the start, the farther one listed first\<close>
  "distant_world =
     demo_world\<lparr>db := [epoch_job],
                files := [far_clip\<lparr>timeCreated := 7000000000000003\<rparr>,
                          near_clip\<lparr>timeCreated := 7000000000000002\<rparr>]\<rparr>"

definition demo_done :: op_status where
  \<comment> \<open>a success payload naming \<open>demo_clip\<close>\<close>
  "demo_done = \<lparr>s_done = True, s_metadata = None,
                s_response = Some \<lparr>videoUri = Some ''gs://media/generated-videos/clip.mp4'',
                                   outputUri = None\<rparr>,
                s_error = None\<rparr>"

definition demo_image :: gcs_file where
  "demo_image = \<lparr>name = ''input-images/1-cat.png'', timeCreated = 500, fsize = 100,
                 file_contentType = Some ''image/png''\<rparr>"

definition demo_image_job :: video_doc where
  \<comment> \<open>\<open>demo_job\<close> as an image-to-video job with its uploaded input image\<close>
  "demo_image_job =
     demo_job\<lparr>videoType := ImageToVideo,
              inputImage := \<lparr>image_gcsUri = Some ''gs://media/input-images/1-cat.png'',
                             mimetype = Some ''image/png''\<rparr>\<rparr>"

definition demo_image_world :: world where
  "demo_image_world = \<lparr>db = [demo_image_job], files = [demo_clip, demo_image], clock = 5000,
                       writes = [], cleanup_log = []\<rparr>"

definition completed_once :: world where
  \<comment> \<open>the handler has completed \<open>demo_image_job\<close>\<close>
  "completed_once = snd (handleSuccessfulGeneration demo_cfg demo_image_job demo_done
                           demo_image_world)"

definition completed_twice :: world where
  \<comment> \<open>one minute later the handler gets the completed job and the same payload again\<close>
  "completed_twice =
     snd (handleSuccessfulGeneration demo_cfg (the (findById 1 (db completed_once))) demo_done
            (sleep 60000 completed_once))"

definition not_done :: op_status where
  "not_done = \<lparr>s_done = False, s_metadata = None, s_response = None, s_error = None\<rparr>"

definition done_with_error :: op_status where
  \<comment> \<open>the provider's \<^verbatim>\<open>{done: true, error: {message: "X"}}\<close>\<close>
  "done_with_error = \<lparr>s_done = True, s_metadata = None, s_response = None,
                      s_error = Some \<lparr>message = Some ''X''\<rparr>\<rparr>"

definition accepted :: submission where
  "accepted = \<lparr>operationName = Some ''operations/1'', sub_done = False, sub_metadata = None,
               sub_response = None\<rparr>"

definition demo_provider :: provider where
  \<comment> \<open>accepts every submission and never reports done\<close>
  "demo_provider = \<lparr>token = Some ''token'', submit_reply = (\<lambda>v. Inr accepted),
                    status_reply = (\<lambda>t n. Some not_done)\<rparr>"

definition error_provider :: provider where
  \<comment> \<open>answers every status query with \<open>done_with_error\<close>\<close>
  "error_provider = demo_provider\<lparr>status_reply := (\<lambda>t n. Some done_with_error)\<rparr>"

definition flaky_provider :: provider where
  \<comment> \<open>reports an error before time 10000 and success from then on\<close>
  "flaky_provider =
     demo_provider\<lparr>status_reply :=
                      (\<lambda>t n. if t < 10000 then Some done_with_error else Some demo_done)\<rparr>"

definition waiting_world :: world where
  \<comment> \<open>\<open>demo_job\<close> in processing and nothing in the bucket\<close>
  "waiting_world = \<lparr>db = [demo_job], files = [], clock = 5000, writes = [], cleanup_log = []\<rparr>"

definition pending_job :: video_doc where
  \<comment> \<open>a job as the controller creates it\<close>
  "pending_job =
     demo_job\<lparr>status := Pending,
              operation := \<lparr>op_name = None, op_done = False, op_metadata = None,
                            op_response = None, op_error = None\<rparr>,
              processingInfo := \<lparr>startedAt = None, completedAt = None, errorMessage = None\<rparr>\<rparr>"

definition pending_world :: world where
  \<comment> \<open>the job is pending; the output object appears at time 7000\<close>
  "pending_world = \<lparr>db = [pending_job], files = [demo_clip\<lparr>timeCreated := 7000\<rparr>],
                    clock = 5000, writes = [], cleanup_log = []\<rparr>"

definition second_job :: video_doc where
  \<comment> \<open>a second job in processing, started after \<open>demo_clip\<close> was created\<close>
  "second_job = demo_image_job\<lparr>vid := 2, processingInfo :=
                  \<lparr>startedAt = Some 4000, completedAt = None, errorMessage = None\<rparr>\<rparr>"

definition sweep_world :: world where
  \<comment> \<open>three jobs: one in processing with a candidate, one in processing without, one failed\<close>
  "sweep_world = \<lparr>db = [demo_image_job, second_job, demo_job\<lparr>vid := 3, status := Failed\<rparr>],
                  files = [demo_clip, demo_image], clock = 5000, writes = [],
                  cleanup_log = []\<rparr>"

definition demo_gone :: op_status where
  \<comment> \<open>a success payload naming an object that the bucket does not have\<close>
  "demo_gone = \<lparr>s_done = True, s_metadata = None,
                s_response = Some \<lparr>videoUri = Some ''gs://media/generated-videos/gone.mp4'',
                                   outputUri = None\<rparr>,
                s_error = None\<rparr>"

definition expired_job :: video_doc where
  \<comment> \<open>a completed job whose signed URL ran out at time 4000\<close>
  "expired_job =
     demo_job\<lparr>status := Completed,
              video := \<lparr>url = Some ''https://storage.example/old'', urlExpiry = Some 4000,
                        filename = Some ''clip.mp4'', vsize = Some 4096,
                        gcsUri = Some ''gs://media/generated-videos/clip.mp4'',
                        localPath = None, vdata = None, contentType = ''video/mp4''\<rparr>\<rparr>"

definition expired_world :: world where
  "expired_world = \<lparr>db = [expired_job], files = [demo_clip], clock = 5000, writes = [],
                    cleanup_log = []\<rparr>"

section \<open>Rounding to a double is monotone\<close>

lemma round_near_floor: "\<lfloor>m\<rfloor> \<le> roundTiesToEven m \<and> roundTiesToEven m \<le> \<lfloor>m\<rfloor> + 1"
  by (simp add: roundTiesToEven_def Let_def)


lemma exponent_bounds:
  assumes "0 < y"
  shows "2 powi (exponent y) \<le> y \<and> y < 2 powi (exponent y + 1)"
proof (cases "1 \<le> y")
  case True
  let ?n = "\<lfloor>y\<rfloor>"
  have n: "0 < ?n" using True by simp
  have b1: "1 \<le> bitlen ?n" using n bitlen_eq_zero_iff [of ?n] bitlen_nonneg [of ?n] by simp
  from bitlen_bounds [OF n]
  have lo: "2 ^ nat (bitlen ?n - 1) \<le> ?n" and hi: "?n < 2 ^ nat (bitlen ?n)" by simp_all
  have e: "exponent y = bitlen ?n - 1" using True by (simp add: exponent_def)
  have "(2::rat) powi (bitlen ?n - 1) = 2 ^ nat (bitlen ?n - 1)"
    using b1 by (simp add: power_int_nonneg_exp)
  also have "\<dots> = of_int (2 ^ nat (bitlen ?n - 1))" by simp
  also have "\<dots> \<le> of_int ?n" using lo by (simp only: of_int_le_iff)
  also have "\<dots> \<le> y" by simp
  finally have A: "2 powi (exponent y) \<le> y" by (simp add: e)
  have "?n + 1 \<le> 2 ^ nat (bitlen ?n)" using hi by simp
  then have "(of_int (?n + 1) :: rat) \<le> of_int (2 ^ nat (bitlen ?n))"
    by (simp only: of_int_le_iff)
  moreover have "y < of_int (?n + 1)" using floor_correct [of y] by blast
  ultimately have "y < of_int (2 ^ nat (bitlen ?n))" by linarith
  also have "\<dots> = 2 powi (bitlen ?n)" using b1 by (simp add: power_int_nonneg_exp)
  finally have B: "y < 2 powi (exponent y + 1)" by (simp add: e)
  from A B show ?thesis ..
next
  case False
  let ?z = "1 / y"
  let ?c = "\<lceil>?z\<rceil>"
  let ?k = "bitlen (?c - 1)"
  have z1: "1 < ?z" using False assms by simp
  then have c2: "2 \<le> ?c" by (simp add: le_ceiling_iff)
  then have c: "0 < ?c - 1" by simp
  have k1: "1 \<le> ?k" using c bitlen_eq_zero_iff [of "?c - 1"] bitlen_nonneg [of "?c - 1"] by simp
  from bitlen_bounds [OF c]
  have lo: "2 ^ nat (?k - 1) \<le> ?c - 1" and hi: "?c - 1 < 2 ^ nat ?k" by simp_all
  have e: "exponent y = - ?k" using False by (simp add: exponent_def)
  have "?c \<le> 2 ^ nat ?k" using hi by simp
  then have "(of_int ?c :: rat) \<le> of_int (2 ^ nat ?k)" by (simp only: of_int_le_iff)
  moreover have "?z \<le> of_int ?c" by simp
  moreover have "(of_int (2 ^ nat ?k) :: rat) = 2 ^ nat ?k" by simp
  ultimately have "?z \<le> 2 ^ nat ?k" by linarith
  then have "1 \<le> 2 ^ nat ?k * y" using assms by (simp add: field_simps)
  then have "1 / 2 ^ nat ?k \<le> y" by (simp add: field_simps)
  moreover have "(2::rat) powi (- ?k) = 1 / 2 ^ nat ?k"
    using k1 by (simp add: power_int_minus_divide power_int_nonneg_exp)
  ultimately have A: "2 powi (exponent y) \<le> y" by (simp add: e)
  have "(of_int (2 ^ nat (?k - 1)) :: rat) \<le> of_int (?c - 1)" using lo by (simp only: of_int_le_iff)
  moreover have "of_int (?c - 1) < ?z" using ceiling_correct [of ?z] by simp
  moreover have "(of_int (2 ^ nat (?k - 1)) :: rat) = 2 ^ nat (?k - 1)" by simp
  ultimately have "2 ^ nat (?k - 1) < ?z" by linarith
  then have "2 ^ nat (?k - 1) * y < 1" using assms by (simp add: field_simps)
  then have "y < 1 / 2 ^ nat (?k - 1)" by (simp add: field_simps)
  moreover have "(2::rat) powi (- ?k + 1) = 1 / 2 ^ nat (?k - 1)"
  proof -
    have "- ?k + 1 = - (?k - 1)" by simp
    then show ?thesis using k1 by (simp only: power_int_minus_divide) (simp add: power_int_nonneg_exp)
  qed
  ultimately have B: "y < 2 powi (exponent y + 1)" by (simp add: e)
  from A B show ?thesis ..
qed


lemma double_positive:
  assumes "0 < y"
  shows "double y = of_int (roundTiesToEven (y / 2 powi (exponent y - 52)))
                      * 2 powi (exponent y - 52)"
  using assms by (simp add: double_def Let_def)

lemma mantissa_bounds:
  assumes "0 < y"
  shows "2 ^ 52 \<le> y / 2 powi (exponent y - 52) \<and> y / 2 powi (exponent y - 52) < 2 ^ 53"
proof -
  let ?u = "(2::rat) powi (exponent y - 52)"
  have u: "0 < ?u" by simp
  have s1: "(2::rat) powi (exponent y) = 2 ^ 52 * ?u"
    by (simp add: power_int_diff)
  have s2: "(2::rat) powi (exponent y + 1) = 2 ^ 53 * ?u"
    by (simp add: power_int_diff power_int_add)
  from exponent_bounds [OF assms] have "2 ^ 52 * ?u \<le> y" "y < 2 ^ 53 * ?u"
    unfolding s1 s2 by simp_all
  then show ?thesis using u by (simp add: field_simps)
qed

lemma double_range:
  assumes "0 < y"
  shows "2 powi (exponent y) \<le> double y \<and> double y \<le> 2 powi (exponent y + 1)"
proof -
  let ?u = "(2::rat) powi (exponent y - 52)"
  let ?m = "y / ?u"
  have u: "0 < ?u" by simp
  have s1: "(2::rat) powi (exponent y) = 2 ^ 52 * ?u"
    by (simp add: power_int_diff)
  have s2: "(2::rat) powi (exponent y + 1) = 2 ^ 53 * ?u"
    by (simp add: power_int_diff power_int_add)
  from mantissa_bounds [OF assms] have m: "2 ^ 52 \<le> ?m" "?m < 2 ^ 53" by simp_all
  have "(2::int) ^ 52 \<le> \<lfloor>?m\<rfloor>" using m(1) by (simp add: le_floor_iff)
  then have lo: "2 ^ 52 \<le> roundTiesToEven ?m" using round_near_floor [of ?m] by linarith
  have "\<lfloor>?m\<rfloor> < 2 ^ 53" using m(2) by (simp add: floor_less_iff)
  then have hi: "roundTiesToEven ?m \<le> 2 ^ 53" using round_near_floor [of ?m] by linarith
  have "(2::rat) ^ 52 \<le> of_int (roundTiesToEven ?m)"
    using lo by (metis of_int_le_iff of_int_numeral of_int_power)
  then have A: "2 ^ 52 * ?u \<le> of_int (roundTiesToEven ?m) * ?u"
    using u by (simp add: mult_right_mono)
  have "(of_int (roundTiesToEven ?m) :: rat) \<le> 2 ^ 53"
    using hi by (metis of_int_le_iff of_int_numeral of_int_power)
  then have B: "of_int (roundTiesToEven ?m) * ?u \<le> 2 ^ 53 * ?u"
    using u by (simp add: mult_right_mono)
  show ?thesis unfolding double_positive [OF assms] s1 s2 using A B by simp
qed

lemma double_pos: "0 < y \<Longrightarrow> 0 < double y"
proof -
  assume y: "0 < y"
  have "(0::rat) < 2 powi (exponent y)" by simp
  then show ?thesis using double_range [OF y] by linarith
qed






lemma score_pos: "0 < score t0 f"
proof -
  let ?d = "\<bar>double (of_int (timeCreated f) - of_int t0)\<bar>"
  have "0 < ?d + 1" by simp
  then have "0 < double (?d + 1)" by (rule double_pos)
  then have "0 < 1 / double (?d + 1)" by simp
  then have "0 < double (1 / double (?d + 1))" by (rule double_pos)
  then show ?thesis by (simp add: score_def Let_def)
qed


section \<open>Evaluation\<close>


lemmas demo_defs = demo_gone_def second_job_def sweep_world_def not_done_def done_with_error_def accepted_def demo_provider_def
  error_provider_def flaky_provider_def waiting_world_def pending_job_def pending_world_def
  expired_world_def expired_job_def completed_once_def completed_twice_def demo_image_world_def
  demo_image_job_def demo_world_def demo_job_def demo_done_def demo_cfg_def demo_clip_def
  demo_image_def

lemmas code_defs = handleSuccessfulGeneration_def failGeneration_def updateStatus_def save_def
  cleanupTemporaryImage_def gcsPathOf_def payloadUri_def truthy_def startsWith_def
  getMetadata_def findById_def sleep_def basename_def sevenDays_def Let_def
  getVideoData_def refreshSignedUrl_def incrementViews_def orMp4_def

lemmas poll_defs = pollForCompletion_def pollAttempt_def completeOrThrow_def timeOut_def
  checkOperationStatus_def getAccessToken_def checkVideoInBucket_def getFiles_def mockStatus_def
  score_pos processVideoGeneration_def generateVideo_def assignOperation_def failProcess_def
  summary_def

section \<open>The bucket scan returns the closest qualifying object\<close>

lemma scanFiles_foldl:
  "scanFiles t0 fs best = foldl (pickBetter t0) best (filter (qualifies t0) fs)"
proof (induction fs arbitrary: best)
  case Nil
  show ?case by simp
next
  case (Cons f fs)
  obtain b s where best: "best = (b, s)" by (cases best)
  show ?case unfolding best
    by (simp add: Cons.IH pickBetter_def qualifies_def)
qed

lemma foldl_pickBetter:
  "(foldl (pickBetter t0) (b, s) cs = (b, s) \<and> (\<forall>g\<in>set cs. score t0 g \<le> s))
   \<or> (\<exists>pre f post. cs = pre @ f # post
         \<and> foldl (pickBetter t0) (b, s) cs = (Some f, score t0 f)
         \<and> s < score t0 f
         \<and> (\<forall>g\<in>set pre. score t0 g < score t0 f)
         \<and> (\<forall>g\<in>set post. score t0 g \<le> score t0 f))"
proof (induction cs arbitrary: b s)
  case Nil
  show ?case by simp
next
  case (Cons c cs)
  show ?case
  proof (cases "score t0 c > s")
    case True
    then have step: "foldl (pickBetter t0) (b, s) (c # cs)
                     = foldl (pickBetter t0) (Some c, score t0 c) cs"
      by (simp add: pickBetter_def)
    from Cons.IH [of "Some c" "score t0 c"] show ?thesis
    proof
      assume keep: "foldl (pickBetter t0) (Some c, score t0 c) cs = (Some c, score t0 c)
                    \<and> (\<forall>g\<in>set cs. score t0 g \<le> score t0 c)"
      have "c # cs = [] @ c # cs" by simp
      with keep step True show ?thesis by (metis empty_iff list.set(1))
    next
      assume "\<exists>pre f post. cs = pre @ f # post
         \<and> foldl (pickBetter t0) (Some c, score t0 c) cs = (Some f, score t0 f)
         \<and> score t0 c < score t0 f
         \<and> (\<forall>g\<in>set pre. score t0 g < score t0 f)
         \<and> (\<forall>g\<in>set post. score t0 g \<le> score t0 f)"
      then obtain pre f post where
        a: "cs = pre @ f # post"
        and b: "foldl (pickBetter t0) (Some c, score t0 c) cs = (Some f, score t0 f)"
        and c: "score t0 c < score t0 f"
        and d: "\<forall>g\<in>set pre. score t0 g < score t0 f"
        and e: "\<forall>g\<in>set post. score t0 g \<le> score t0 f"
        by blast
      have "c # cs = (c # pre) @ f # post" using a by simp
      moreover have "\<forall>g\<in>set (c # pre). score t0 g < score t0 f" using c d by simp
      moreover have "s < score t0 f" using True c by simp
      ultimately show ?thesis using step b e by metis
    qed
  next
    case False
    then have step: "foldl (pickBetter t0) (b, s) (c # cs) = foldl (pickBetter t0) (b, s) cs"
      by (simp add: pickBetter_def)
    from Cons.IH [of b s] show ?thesis
    proof
      assume "foldl (pickBetter t0) (b, s) cs = (b, s) \<and> (\<forall>g\<in>set cs. score t0 g \<le> s)"
      with step False show ?thesis by auto
    next
      assume "\<exists>pre f post. cs = pre @ f # post
         \<and> foldl (pickBetter t0) (b, s) cs = (Some f, score t0 f)
         \<and> s < score t0 f
         \<and> (\<forall>g\<in>set pre. score t0 g < score t0 f)
         \<and> (\<forall>g\<in>set post. score t0 g \<le> score t0 f)"
      then obtain pre f post where
        a: "cs = pre @ f # post"
        and b: "foldl (pickBetter t0) (b, s) cs = (Some f, score t0 f)"
        and c: "s < score t0 f"
        and d: "\<forall>g\<in>set pre. score t0 g < score t0 f"
        and e: "\<forall>g\<in>set post. score t0 g \<le> score t0 f"
        by blast
      have "c # cs = (c # pre) @ f # post" using a by simp
      moreover have "\<forall>g\<in>set (c # pre). score t0 g < score t0 f" using False c d by auto
      ultimately show ?thesis using step b c e by metis
    qed
  qed
qed

lemma scan_none:
  assumes "filter (qualifies t0) fs = []"
  shows "fst (scanFiles t0 fs (None, 0)) = None"
  using assms by (simp add: scanFiles_foldl)

lemma scan_some:
  assumes "filter (qualifies t0) fs \<noteq> []"
  shows "\<exists>pre f post. filter (qualifies t0) fs = pre @ f # post
           \<and> fst (scanFiles t0 fs (None, 0)) = Some f
           \<and> (\<forall>g\<in>set pre. score t0 g < score t0 f)
           \<and> (\<forall>g\<in>set post. score t0 g \<le> score t0 f)"
proof -
  let ?cs = "filter (qualifies t0) fs"
  from assms obtain c where "c \<in> set ?cs" by (cases ?cs) auto
  then have "\<not> (\<forall>g\<in>set ?cs. score t0 g \<le> 0)"
    using score_pos [of t0 c] by (meson not_le)
  with foldl_pickBetter [of t0 None 0 ?cs] show ?thesis
    by (simp add: scanFiles_foldl) (metis fst_conv)
qed




text \<open>
  Beyond \<open>2 ^ 52\<close> milliseconds two different distances can round to the same score:
  of the two videos of \<open>distant_world\<close> the second is 1 ms nearer to the start, the
  scores are equal, and the scan keeps the first.
\<close>

lemma equal_scores_keep_first:
  "score 0 (far_clip\<lparr>timeCreated := 7000000000000003\<rparr>)
     = score 0 (near_clip\<lparr>timeCreated := 7000000000000002\<rparr>)
   \<and> checkVideoInBucket demo_cfg distant_world 1 = Some ''gs://media/generated-videos/far.mp4''"
proof
  show e: "score 0 (far_clip\<lparr>timeCreated := 7000000000000003\<rparr>)
             = score 0 (near_clip\<lparr>timeCreated := 7000000000000002\<rparr>)"
    by code_simp
  have "\<not> score 0 (far_clip\<lparr>timeCreated := 7000000000000003\<rparr>)
           < score 0 (near_clip\<lparr>timeCreated := 7000000000000002\<rparr>)"
    using e by simp
  then show "checkVideoInBucket demo_cfg distant_world 1
               = Some ''gs://media/generated-videos/far.mp4''"
    by (simp add: distant_world_def epoch_job_def demo_world_def demo_job_def demo_cfg_def
          far_clip_def near_clip_def checkVideoInBucket_def findById_def getFiles_def
          startsWith_def score_pos)
qed

section \<open>The force completion check leaves a job that is not processing alone\<close>

text \<open>
  Claim C10. For a job whose status is not processing, forceCompletionCheck returns
  the message \<^verbatim>\<open>Video is not in processing state\<close> with the job's current status
  and leaves the whole world as it was: no document is written (no status change, no
  artifact), no object is deleted and no cleanup is attempted. The bucket scan and the
  completion are in the other branch, taken only for a job in processing.
\<close>

theorem forceCompletionCheck_not_processing:
  assumes "findById videoId (db w) = Some doc" and "status doc \<noteq> Processing"
  shows "forceCompletionCheck cfg videoId w
           = (Inr (''Video is not in processing state'', status doc), w)"
  using assms by (simp add: forceCompletionCheck_def)

theorem forceCompletionCheck_not_processing_witness:
  "findById 1 (db (demo_world\<lparr>db := [demo_job\<lparr>status := Failed\<rparr>]\<rparr>))
     = Some (demo_job\<lparr>status := Failed\<rparr>)
   \<and> status (demo_job\<lparr>status := Failed\<rparr>) \<noteq> Processing
   \<and> forceCompletionCheck demo_cfg 1 (demo_world\<lparr>db := [demo_job\<lparr>status := Failed\<rparr>]\<rparr>)
       = (Inr (''Video is not in processing state'', Failed),
          demo_world\<lparr>db := [demo_job\<lparr>status := Failed\<rparr>]\<rparr>)"
proof -
  have h1: "findById 1 (db (demo_world\<lparr>db := [demo_job\<lparr>status := Failed\<rparr>]\<rparr>))
              = Some (demo_job\<lparr>status := Failed\<rparr>)"
    by (simp add: findById_def demo_job_def)
  have h2: "status (demo_job\<lparr>status := Failed\<rparr>) \<noteq> Processing" by simp
  from forceCompletionCheck_not_processing [OF h1 h2, of demo_cfg] h1 h2
  show ?thesis by simp
qed

section \<open>The completion handler\<close>

lemma findById_vid: "findById i d = Some doc \<Longrightarrow> vid doc = i"
  unfolding findById_def by (induction d) (auto split: if_splits)

lemma findById_map_replace:
  "findById i (map (\<lambda>u. if vid u = vid v then v else u) d)
     = (if vid v = i then (case findById i d of None \<Rightarrow> None | Some x \<Rightarrow> Some v)
        else findById i d)"
  unfolding findById_def by (induction d) auto

lemma findById_save:
  "findById i (db (save v w))
     = (if vid v = i then (case findById i (db w) of None \<Rightarrow> None | Some x \<Rightarrow> Some v)
        else findById i (db w))"
  by (simp add: save_def findById_map_replace)

lemma db_cleanup [simp]: "db (cleanupTemporaryImage cfg u w) = db w"
  by (simp add: cleanupTemporaryImage_def Let_def)

lemma writes_cleanup [simp]: "writes (cleanupTemporaryImage cfg u w) = writes w"
  by (simp add: cleanupTemporaryImage_def Let_def)

lemma clock_cleanup [simp]: "clock (cleanupTemporaryImage cfg u w) = clock w"
  by (simp add: cleanupTemporaryImage_def Let_def)

lemma handle_success:
  assumes "truthy (payloadUri st)" and "bucket_ok cfg"
    and "getMetadata (gcsPathOf cfg (the (payloadUri st))) (files w) = Some md"
  shows "handleSuccessfulGeneration cfg doc st w
           = (Inr (),
              (if truthy (image_gcsUri (inputImage doc))
               then cleanupTemporaryImage cfg (image_gcsUri (inputImage doc))
               else id)
                (save (completedDoc cfg doc (the (payloadUri st)) md (clock w)) w))"
  using assms
  by (simp add: handleSuccessfulGeneration_def Let_def updateStatus_def completedDoc_def)

lemma truthy_the: "truthy s \<Longrightarrow> Some (the s) = s"
  by (cases s) (simp_all add: truthy_def)

text \<open>
  Claim C7. When the handler gets a job (a document of the collection) and a success
  payload with an output storage URI, and storage has the object, the handler returns
  normally and the job is persisted with status completed, completedAt set to the
  current time, and the artifact: the location from the payload, the URL signed for
  reading until 7 days from now, that expiry, the size and content type from the
  object's metadata (content type \<^verbatim>\<open>video/mp4\<close> when the metadata has none) and
  the file name.
\<close>

theorem handleSuccessfulGeneration_completes:
  assumes "truthy (payloadUri st)" and "bucket_ok cfg"
    and "getMetadata (gcsPathOf cfg (the (payloadUri st))) (files w) = Some md"
    and "findById (vid doc) (db w) = Some doc"
  shows "fst (handleSuccessfulGeneration cfg doc st w) = Inr ()
       \<and> (\<exists>doc'. findById (vid doc) (db (snd (handleSuccessfulGeneration cfg doc st w))) = Some doc'
            \<and> status doc' = Completed
            \<and> completedAt (processingInfo doc') = Some (clock w)
            \<and> gcsUri (video doc') = payloadUri st
            \<and> url (video doc')
                = Some (getSignedUrl cfg (gcsPathOf cfg (the (payloadUri st)))
                          (clock w + 7 * 24 * 60 * 60 * 1000))
            \<and> urlExpiry (video doc') = Some (clock w + 7 * 24 * 60 * 60 * 1000)
            \<and> vsize (video doc') = Some (fsize md)
            \<and> contentType (video doc')
                = (if truthy (file_contentType md) then the (file_contentType md)
                   else ''video/mp4'')
            \<and> filename (video doc') = Some (basename (gcsPathOf cfg (the (payloadUri st)))))"
proof -
  let ?d = "completedDoc cfg doc (the (payloadUri st)) md (clock w)"
  have vid: "vid ?d = vid doc" by (simp add: completedDoc_def)
  have "findById (vid doc) (db (snd (handleSuccessfulGeneration cfg doc st w))) = Some ?d"
    using assms(4) vid by (simp add: handle_success [OF assms(1-3)] findById_save)
  moreover have "fst (handleSuccessfulGeneration cfg doc st w) = Inr ()"
    by (simp add: handle_success [OF assms(1-3)])
  moreover have "status ?d = Completed" "completedAt (processingInfo ?d) = Some (clock w)"
    "gcsUri (video ?d) = payloadUri st"
    "url (video ?d) = Some (getSignedUrl cfg (gcsPathOf cfg (the (payloadUri st)))
                              (clock w + 7 * 24 * 60 * 60 * 1000))"
    "urlExpiry (video ?d) = Some (clock w + 7 * 24 * 60 * 60 * 1000)"
    "vsize (video ?d) = Some (fsize md)"
    "contentType (video ?d)
       = (if truthy (file_contentType md) then the (file_contentType md) else ''video/mp4'')"
    "filename (video ?d) = Some (basename (gcsPathOf cfg (the (payloadUri st))))"
    using truthy_the [OF assms(1)] by (simp_all add: completedDoc_def sevenDays_def)
  ultimately show ?thesis by blast
qed

lemma demo_path:
  "gcsPathOf demo_cfg ''gs://media/generated-videos/clip.mp4'' = ''generated-videos/clip.mp4''"
  by (simp add: gcsPathOf_def demo_cfg_def startsWith_def)

lemma demo_payload: "payloadUri demo_done = Some ''gs://media/generated-videos/clip.mp4''"
  by (simp add: payloadUri_def demo_done_def truthy_def)

theorem handleSuccessfulGeneration_completes_witness:
  "truthy (payloadUri demo_done) \<and> bucket_ok demo_cfg
   \<and> getMetadata (gcsPathOf demo_cfg (the (payloadUri demo_done))) (files demo_world)
       = Some demo_clip
   \<and> findById (vid demo_job) (db demo_world) = Some demo_job
   \<and> fst (handleSuccessfulGeneration demo_cfg demo_job demo_done demo_world) = Inr ()"
proof -
  have h1: "truthy (payloadUri demo_done)" by (simp add: demo_payload truthy_def)
  have h2: "bucket_ok demo_cfg" by (simp add: demo_cfg_def)
  have h3: "getMetadata (gcsPathOf demo_cfg (the (payloadUri demo_done))) (files demo_world)
              = Some demo_clip"
    by (simp add: demo_payload demo_path getMetadata_def demo_world_def demo_clip_def)
  have h4: "findById (vid demo_job) (db demo_world) = Some demo_job"
    by (simp add: findById_def demo_world_def)
  from handleSuccessfulGeneration_completes [OF h1 h2 h3 h4] h1 h2 h3 h4
  show ?thesis by blast
qed

section \<open>A second completion of the same job\<close>

lemma demo_image_path:
  "gcsPathOf demo_cfg ''gs://media/input-images/1-cat.png'' = ''input-images/1-cat.png''"
  by (simp add: gcsPathOf_def demo_cfg_def startsWith_def)

text \<open>
  Claim C2 says that a second run of the handler on a completed job, with the same
  payload, changes nothing and attempts no second cleanup. One minute after the first
  completion of \<open>demo_image_job\<close> the second run moves urlExpiry and completedAt
  and asks the bucket about the input image again.
\<close>

theorem second_completion_counterexample:
  "status (the (findById 1 (db completed_once))) = Completed
   \<and> urlExpiry (video (the (findById 1 (db completed_once)))) = Some 604805000
   \<and> urlExpiry (video (the (findById 1 (db completed_twice)))) = Some 604865000
   \<and> completedAt (processingInfo (the (findById 1 (db completed_twice)))) = Some 65000
   \<and> cleanup_log completed_once = [''input-images/1-cat.png'']
   \<and> cleanup_log completed_twice = [''input-images/1-cat.png'', ''input-images/1-cat.png'']"
  by (simp add: demo_defs code_defs)

text \<open>
  Claim C2, amended. The handler does not look at the job's status. Run on a job that
  is already completed, with a payload whose object storage has, it writes the job
  again: location and file name come from the payload (so they stay as they were for
  the same payload), the size comes from storage as it is now, the url is signed anew,
  urlExpiry is 7 days from the time of this run and completedAt is the time of this run;
  and when the job has an input image the cleanup is attempted again (it deletes only
  an object that still exists).
\<close>

theorem handleSuccessfulGeneration_not_guarded:
  assumes "status doc = Completed"
    and "truthy (payloadUri st)" and "bucket_ok cfg"
    and "getMetadata (gcsPathOf cfg (the (payloadUri st))) (files w) = Some md"
    and "findById (vid doc) (db w) = Some doc"
  shows "\<exists>doc'. findById (vid doc) (db (snd (handleSuccessfulGeneration cfg doc st w))) = Some doc'
          \<and> writes (snd (handleSuccessfulGeneration cfg doc st w)) = writes w @ [doc']
          \<and> gcsUri (video doc') = payloadUri st
          \<and> filename (video doc') = Some (basename (gcsPathOf cfg (the (payloadUri st))))
          \<and> vsize (video doc') = Some (fsize md)
          \<and> contentType (video doc')
              = (if truthy (file_contentType md) then the (file_contentType md)
                 else ''video/mp4'')
          \<and> url (video doc')
              = Some (getSignedUrl cfg (gcsPathOf cfg (the (payloadUri st))) (clock w + sevenDays))
          \<and> urlExpiry (video doc') = Some (clock w + sevenDays)
          \<and> completedAt (processingInfo doc') = Some (clock w)
          \<and> cleanup_log (snd (handleSuccessfulGeneration cfg doc st w))
              = cleanup_log w
                @ (if truthy (image_gcsUri (inputImage doc))
                   then [gcsPathOf cfg (the (image_gcsUri (inputImage doc)))] else [])"
proof -
  let ?d = "completedDoc cfg doc (the (payloadUri st)) md (clock w)"
  let ?w = "snd (handleSuccessfulGeneration cfg doc st w)"
  have vid: "vid ?d = vid doc" by (simp add: completedDoc_def)
  have "findById (vid doc) (db ?w) = Some ?d"
    using assms(5) vid by (simp add: handle_success [OF assms(2-4)] findById_save)
  moreover have "writes ?w = writes w @ [?d]"
    by (simp add: handle_success [OF assms(2-4)] save_def)
  moreover have "cleanup_log ?w
              = cleanup_log w
                @ (if truthy (image_gcsUri (inputImage doc))
                   then [gcsPathOf cfg (the (image_gcsUri (inputImage doc)))] else [])"
    using assms(3)
    by (simp add: handle_success [OF assms(2-4)] save_def cleanupTemporaryImage_def Let_def)
  moreover have "gcsUri (video ?d) = payloadUri st"
    "filename (video ?d) = Some (basename (gcsPathOf cfg (the (payloadUri st))))"
    "vsize (video ?d) = Some (fsize md)"
    "contentType (video ?d)
       = (if truthy (file_contentType md) then the (file_contentType md) else ''video/mp4'')"
    "url (video ?d)
       = Some (getSignedUrl cfg (gcsPathOf cfg (the (payloadUri st))) (clock w + sevenDays))"
    "urlExpiry (video ?d) = Some (clock w + sevenDays)"
    "completedAt (processingInfo ?d) = Some (clock w)"
    using truthy_the [OF assms(2)] by (simp_all add: completedDoc_def)
  ultimately show ?thesis by blast
qed

theorem handleSuccessfulGeneration_not_guarded_witness:
  "status (the (findById 1 (db completed_once))) = Completed
   \<and> truthy (payloadUri demo_done) \<and> bucket_ok demo_cfg
   \<and> getMetadata (gcsPathOf demo_cfg (the (payloadUri demo_done)))
         (files (sleep 60000 completed_once)) = Some demo_clip
   \<and> findById (vid (the (findById 1 (db completed_once)))) (db (sleep 60000 completed_once))
       = Some (the (findById 1 (db completed_once)))
   \<and> cleanup_log completed_twice
       = cleanup_log (sleep 60000 completed_once) @ [''input-images/1-cat.png'']"
proof -
  let ?doc = "the (findById 1 (db completed_once))"
  have h1: "status ?doc = Completed" by (simp add: demo_defs code_defs)
  have h2: "truthy (payloadUri demo_done)" by (simp add: demo_payload truthy_def)
  have h3: "bucket_ok demo_cfg" by (simp add: demo_cfg_def)
  have h4: "getMetadata (gcsPathOf demo_cfg (the (payloadUri demo_done)))
              (files (sleep 60000 completed_once)) = Some demo_clip"
    by (simp add: demo_defs code_defs)
  have h5: "findById (vid ?doc) (db (sleep 60000 completed_once)) = Some ?doc"
    by (simp add: demo_defs code_defs)
  have img: "image_gcsUri (inputImage ?doc) = Some ''gs://media/input-images/1-cat.png''"
    by (simp add: demo_defs code_defs)
  from handleSuccessfulGeneration_not_guarded [OF h1 h2 h3 h4 h5]
  have "cleanup_log completed_twice
          = cleanup_log (sleep 60000 completed_once)
            @ (if truthy (image_gcsUri (inputImage ?doc))
               then [gcsPathOf demo_cfg (the (image_gcsUri (inputImage ?doc)))] else [])"
    unfolding completed_twice_def [symmetric] by blast
  then have "cleanup_log completed_twice
          = cleanup_log (sleep 60000 completed_once) @ [''input-images/1-cat.png'']"
    unfolding img by (simp add: truthy_def demo_image_path)
  with h1 h2 h3 h4 h5 show ?thesis by blast
qed

section \<open>Reading an artifact whose signed URL has expired\<close>

text \<open>
  Claim C6 says that a read of a completed job whose urlExpiry is in the past never
  returns the old url. refreshSignedUrl returns the stored url as it is when the
  bucket is not configured (or the artifact has no storage URI): at time 5000 the
  reader hands out the url that expired at 4000 and writes no new expiry.
\<close>

theorem expired_url_counterexample:
  "status expired_job = Completed
   \<and> urlExpiry (video expired_job) = Some 4000
   \<and> clock expired_world = 5000
   \<and> fst (getVideoData (demo_cfg\<lparr>bucket_ok := False\<rparr>) 1 7 expired_world)
       = Inr (Redirect (Some ''https://storage.example/old'') ''video/mp4''
                (Some ''clip.mp4'') (Some 4096))
   \<and> urlExpiry (video (the (findById 1
         (db (snd (getVideoData (demo_cfg\<lparr>bucket_ok := False\<rparr>) 1 7 expired_world))))))
       = Some 4000"
  by (simp add: demo_defs code_defs)

text \<open>
  Claim C6, amended. A reader allowed to see the job (its owner, or anyone when the
  job is not private) reads a job whose url is set and whose urlExpiry is strictly in
  the past. If the bucket is configured and the artifact has a storage URI, the reader
  returns the url newly signed for that object until 7 days from now, and the job is
  persisted with this url and with the new urlExpiry, 7 days from now, which is
  strictly later than the old one. Otherwise it returns the stored url and leaves url
  and urlExpiry as they were.
\<close>

theorem getVideoData_refreshes_expired_url:
  assumes "findById videoId (db w) = Some doc"
    and "user doc = userId \<or> \<not> isPrivate doc"
    and "truthy (url (video doc))"
    and "urlExpiry (video doc) = Some e"
    and "e < clock w"
  shows "\<exists>doc'. findById videoId (db (snd (getVideoData cfg videoId userId w))) = Some doc'
          \<and> (if truthy (gcsUri (video doc)) \<and> bucket_ok cfg
              then (\<exists>ct fn sz. fst (getVideoData cfg videoId userId w)
                      = Inr (Redirect
                          (Some (getSignedUrl cfg (gcsPathOf cfg (the (gcsUri (video doc))))
                                   (clock w + sevenDays))) ct fn sz))
                 \<and> url (video doc')
                     = Some (getSignedUrl cfg (gcsPathOf cfg (the (gcsUri (video doc))))
                               (clock w + sevenDays))
                 \<and> urlExpiry (video doc') = Some (clock w + sevenDays)
                 \<and> e < clock w + sevenDays
              else (\<exists>ct fn sz. fst (getVideoData cfg videoId userId w)
                      = Inr (Redirect (url (video doc)) ct fn sz))
                 \<and> url (video doc') = url (video doc)
                 \<and> urlExpiry (video doc') = Some e)"
proof -
  have v: "vid doc = videoId" using assms(1) by (rule findById_vid)
  show ?thesis
  proof (cases "truthy (gcsUri (video doc)) \<and> bucket_ok cfg")
    case True
    let ?u = "getSignedUrl cfg (gcsPathOf cfg (the (gcsUri (video doc)))) (clock w + sevenDays)"
    let ?d1 = "doc\<lparr>video := (video doc)\<lparr>url := Some ?u,
                                           urlExpiry := Some (clock w + sevenDays)\<rparr>\<rparr>"
    let ?d2 = "?d1\<lparr>views := views ?d1 + 1\<rparr>"
    have r: "getVideoData cfg videoId userId w
               = (Inr (Redirect (Some ?u) (orMp4 (contentType (video ?d2)))
                         (filename (video ?d2)) (vsize (video ?d2))),
                  save ?d2 (save ?d1 w))"
      using assms True
      by (auto simp add: getVideoData_def refreshSignedUrl_def incrementViews_def Let_def)
    have "findById videoId (db (save ?d2 (save ?d1 w))) = Some ?d2"
      using assms(1) v by (simp add: findById_save)
    moreover have "e < clock w + sevenDays" using assms(5) by (simp add: sevenDays_def)
    ultimately show ?thesis using True by (simp add: r)
  next
    case False
    let ?d2 = "doc\<lparr>views := views doc + 1\<rparr>"
    have r: "getVideoData cfg videoId userId w
               = (Inr (Redirect (url (video doc)) (orMp4 (contentType (video ?d2)))
                         (filename (video ?d2)) (vsize (video ?d2))),
                  save ?d2 w)"
      using assms False
      by (auto simp add: getVideoData_def refreshSignedUrl_def incrementViews_def Let_def)
    have "findById videoId (db (save ?d2 w)) = Some ?d2"
      using assms(1) v by (simp add: findById_save)
    then show ?thesis using False assms(4) by (auto simp add: r)
  qed
qed

theorem getVideoData_refreshes_expired_url_witness:
  "findById 1 (db expired_world) = Some expired_job
   \<and> (user expired_job = 7 \<or> \<not> isPrivate expired_job)
   \<and> truthy (url (video expired_job))
   \<and> urlExpiry (video expired_job) = Some 4000
   \<and> 4000 < clock expired_world
   \<and> redirectUrl (projr (fst (getVideoData demo_cfg 1 7 expired_world)))
       = Some ''https://storage.example/generated-videos/clip.mp4''"
proof -
  have h1: "findById 1 (db expired_world) = Some expired_job"
    by (simp add: demo_defs code_defs)
  have h2: "user expired_job = 7 \<or> \<not> isPrivate expired_job"
    by (simp add: demo_defs)
  have h3: "truthy (url (video expired_job))" by (simp add: demo_defs truthy_def)
  have h4: "urlExpiry (video expired_job) = Some 4000" by (simp add: demo_defs)
  have h5: "4000 < clock expired_world" by (simp add: demo_defs)
  have g: "truthy (gcsUri (video expired_job)) \<and> bucket_ok demo_cfg"
    by (simp add: demo_defs truthy_def)
  have p: "getSignedUrl demo_cfg (gcsPathOf demo_cfg (the (gcsUri (video expired_job))))
             (clock expired_world + sevenDays)
           = ''https://storage.example/generated-videos/clip.mp4''"
    by (simp add: demo_defs code_defs)
  from getVideoData_refreshes_expired_url [OF h1 h2 h3 h4 h5, of demo_cfg]
  have "\<exists>ct fn sz. fst (getVideoData demo_cfg 1 7 expired_world)
          = Inr (Redirect
              (Some (getSignedUrl demo_cfg (gcsPathOf demo_cfg (the (gcsUri (video expired_job))))
                       (clock expired_world + sevenDays))) ct fn sz)"
    unfolding if_P [OF g] by blast
  then have "redirectUrl (projr (fst (getVideoData demo_cfg 1 7 expired_world)))
          = Some (getSignedUrl demo_cfg (gcsPathOf demo_cfg (the (gcsUri (video expired_job))))
                    (clock expired_world + sevenDays))"
    by auto
  with p h1 h2 h3 h4 h5 show ?thesis by simp
qed

section \<open>Submission: processing comes before the operation handle\<close>




section \<open>The poll loop\<close>

text \<open>
  Claim C1, evaluated. \<open>demo_job\<close> is in processing, the provider never reports done
  and the bucket is empty. With an attempt budget of 3 the loop makes its three
  attempts, 10 seconds apart, and returns normally: the job is still in processing
  and has no error message.
\<close>

theorem poll_budget_exhausted_stays_processing:
  "map_option (\<lambda>(r, w'). (r, summary w', clock w'))
     (pollForCompletion 4 demo_cfg demo_provider 1 3 waiting_world)
   = Some (Inr (), [(Processing, None, Some ''operations/1'')], 35000)"
  by (simp add: demo_defs code_defs poll_defs eval_nat_numeral)

lemma pollAttempt_provider_error:
  assumes "auth_ok cfg" and "token prov \<noteq> None"
    and "\<forall>t n. status_reply prov t n = Some st"
    and "s_done st" and "s_error st = Some e"
    and "findById videoId (db w) = Some doc"
    and "truthy (op_name (operation doc))"
  shows "\<exists>msg w' doc'. pollAttempt cfg prov videoId w = (Thrown msg, w')
           \<and> findById videoId (db w') = Some doc'
           \<and> truthy (op_name (operation doc'))"
proof -
  let ?d = "doc\<lparr>operation := (operation doc)\<lparr>
                 op_done := s_done st, op_metadata := s_metadata st,
                 op_response := s_response st, op_error := s_error st\<rparr>\<rparr>"
  let ?msg = "if truthy (message e) then the (message e) else ''Video generation failed''"
  let ?f = "fst (updateStatus Failed (Some ?msg) ?d (save ?d w))"
  let ?w = "snd (updateStatus Failed (Some ?msg) ?d (save ?d w))"
  have v: "vid doc = videoId" using assms(6) by (rule findById_vid)
  have chk: "checkOperationStatus cfg prov (clock w) (the (op_name (operation doc))) = Inr st"
    using assms(1-3) by (auto simp add: checkOperationStatus_def getAccessToken_def)
  have r: "pollAttempt cfg prov videoId w = (Thrown ?msg, ?w)"
    using assms(4-7) chk by (simp add: pollAttempt_def Let_def)
  have "findById videoId (db ?w) = Some ?f"
    using assms(6) v by (simp add: updateStatus_def Let_def findById_save)
  moreover have "truthy (op_name (operation ?f))"
    using assms(7) by (simp add: updateStatus_def Let_def)
  ultimately show ?thesis using r by blast
qed

lemma pollLoop_provider_error_diverges:
  assumes "auth_ok cfg" and "token prov \<noteq> None"
    and "\<forall>t n. status_reply prov t n = Some st"
    and "s_done st" and "s_error st = Some e"
    and "attempts < maxAttempts - 1"
  shows "findById videoId (db w) = Some doc \<Longrightarrow> truthy (op_name (operation doc))
           \<Longrightarrow> pollLoop fuel cfg prov videoId maxAttempts attempts w = None"
proof (induction fuel arbitrary: w doc)
  case 0
  show ?case by simp
next
  case (Suc fuel)
  from pollAttempt_provider_error [OF assms(1-5) Suc.prems]
  obtain msg w' doc' where
    r: "pollAttempt cfg prov videoId w = (Thrown msg, w')"
    and f: "findById videoId (db w') = Some doc'"
    and t: "truthy (op_name (operation doc'))"
    by blast
  have "findById videoId (db (sleep 5000 w')) = Some doc'" using f by (simp add: sleep_def)
  from Suc.IH [OF this t] show ?case using assms(6) r by simp
qed

text \<open>
  Claim C4, evaluated. The provider answers every status query for \<open>demo_job\<close> with
  done = true and the error message X. The attempt marks the job failed with message
  X and throws; the loop catches its own error and, the budget of 60 not being at its
  last attempt, waits and polls again without counting the attempt: no amount of fuel
  lets the loop return. With a budget of 1 the same catch overwrites the message with
  \<^verbatim>\<open>Operation timed out\<close>.
\<close>

theorem poll_provider_error_not_final:
  "(\<lambda>(r, w'). (r, summary w')) (pollAttempt demo_cfg error_provider 1 demo_world)
     = (Thrown ''X'', [(Failed, Some ''X'', Some ''operations/1'')])
   \<and> (\<forall>fuel. pollForCompletion fuel demo_cfg error_provider 1 60 demo_world = None)
   \<and> map_option (\<lambda>(r, w'). (r, summary w'))
       (pollForCompletion 1 demo_cfg error_provider 1 1 demo_world)
     = Some (Inl ''Video generation timed out'',
             [(Failed, Some ''Operation timed out'', Some ''operations/1'')])"
proof (intro conjI allI)
  show "(\<lambda>(r, w'). (r, summary w')) (pollAttempt demo_cfg error_provider 1 demo_world)
          = (Thrown ''X'', [(Failed, Some ''X'', Some ''operations/1'')])"
    by (simp add: demo_defs code_defs poll_defs)
next
  fix fuel
  have a: "auth_ok demo_cfg" "token error_provider \<noteq> None"
    "\<forall>t n. status_reply error_provider t n = Some done_with_error"
    "s_done done_with_error" "s_error done_with_error = Some \<lparr>message = Some ''X''\<rparr>"
    "(0::int) < 60 - 1"
    by (simp_all add: demo_defs)
  have b: "findById 1 (db demo_world) = Some demo_job"
    "truthy (op_name (operation demo_job))"
    by (simp_all add: demo_defs code_defs)
  show "pollForCompletion fuel demo_cfg error_provider 1 60 demo_world = None"
    unfolding pollForCompletion_def
    by (rule pollLoop_provider_error_diverges [OF a b])
next
  show "map_option (\<lambda>(r, w'). (r, summary w'))
          (pollForCompletion 1 demo_cfg error_provider 1 1 demo_world)
        = Some (Inl ''Video generation timed out'',
                [(Failed, Some ''Operation timed out'', Some ''operations/1'')])"
    by (simp add: demo_defs code_defs poll_defs)
qed

section \<open>Artifact and error message against the status\<close>

text \<open>
  Claim C5 says that every operation keeps "artifact iff completed, error message iff
  failed". Two runs from jobs that satisfy it end with a job that does not. The
  completed job of \<open>completed_once\<close> is handed to the handler again, with a payload
  whose object the bucket does not have: the handler marks it failed, and it keeps its
  artifact. And for \<open>demo_job\<close> the provider first reports the error X and the loop
  polls on; at the next attempt the provider reports success and the handler completes
  the job, whose error message is still X.
\<close>

theorem consistency_counterexample:
  "consistent (the (findById 1 (db completed_once)))
   \<and> (\<lambda>w'. (map status (db w'), map artifact_populated (db w'), map consistent (db w')))
       (snd (handleSuccessfulGeneration demo_cfg (the (findById 1 (db completed_once)))
               demo_gone completed_once))
     = ([Failed], [True], [False])
   \<and> consistent demo_job
   \<and> map_option (\<lambda>(r, w'). (r, summary w', map consistent (db w')))
       (pollForCompletion 2 demo_cfg flaky_provider 1 60 demo_world)
     = Some (Inr (), [(Completed, Some ''X'', Some ''operations/1'')], [False])"
proof (intro conjI)
  have d: "db completed_once
             = [completedDoc demo_cfg demo_image_job ''gs://media/generated-videos/clip.mp4''
                  demo_clip 5000]"
    by (simp add: demo_defs code_defs completedDoc_def)
  have once_job: "findById 1 (db completed_once)
             = Some (completedDoc demo_cfg demo_image_job
                       ''gs://media/generated-videos/clip.mp4'' demo_clip 5000)"
    unfolding d by (simp add: findById_def completedDoc_def demo_image_job_def demo_job_def)
  show "consistent (the (findById 1 (db completed_once)))"
    unfolding once_job
    by (simp add: consistent_def artifact_populated_def completedDoc_def demo_image_job_def
          demo_job_def)
  have p: "payloadUri demo_gone = Some ''gs://media/generated-videos/gone.mp4''"
    by (simp add: payloadUri_def demo_gone_def truthy_def)
  have g: "gcsPathOf demo_cfg ''gs://media/generated-videos/gone.mp4''
             = ''generated-videos/gone.mp4''"
    by (simp add: gcsPathOf_def demo_cfg_def startsWith_def)
  have "files completed_once = [demo_clip]" by (simp add: demo_defs code_defs)
  then have m: "getMetadata ''generated-videos/gone.mp4'' (files completed_once) = None"
    by (simp add: getMetadata_def demo_clip_def)
  have bk: "bucket_ok demo_cfg" by (simp add: demo_cfg_def)
  have h: "\<And>doc. handleSuccessfulGeneration demo_cfg doc demo_gone completed_once
           = failGeneration (missing_object_error demo_cfg ''generated-videos/gone.mp4'')
               doc completed_once"
    using bk by (simp add: handleSuccessfulGeneration_def p g m truthy_def Let_def)
  show "(\<lambda>w'. (map status (db w'), map artifact_populated (db w'), map consistent (db w')))
       (snd (handleSuccessfulGeneration demo_cfg (the (findById 1 (db completed_once)))
               demo_gone completed_once))
     = ([Failed], [True], [False])"
    unfolding h once_job
    by (simp add: failGeneration_def updateStatus_def save_def d Let_def completedDoc_def
          consistent_def artifact_populated_def demo_image_job_def demo_job_def)
  show "consistent demo_job"
    by (simp add: consistent_def artifact_populated_def demo_job_def)
  show "map_option (\<lambda>(r, w'). (r, summary w', map consistent (db w')))
       (pollForCompletion 2 demo_cfg flaky_provider 1 60 demo_world)
     = Some (Inr (), [(Completed, Some ''X'', Some ''operations/1'')], [False])"
    by (simp add: demo_defs code_defs poll_defs eval_nat_numeral consistent_def
          artifact_populated_def)
qed

lemma all_consistent_save:
  "all_consistent w \<Longrightarrow> consistent v \<Longrightarrow> all_consistent (save v w)"
  by (auto simp add: all_consistent_def save_def list_all_iff)

lemma all_consistent_cleanup [simp]:
  "all_consistent (cleanupTemporaryImage cfg u w) = all_consistent w"
  by (simp add: all_consistent_def)

lemma all_consistent_find:
  "all_consistent w \<Longrightarrow> findById i (db w) = Some doc \<Longrightarrow> consistent doc"
  unfolding all_consistent_def findById_def list_all_iff
  by (auto simp add: find_Some_iff)

lemma consistent_operation [simp]:
  "consistent (doc\<lparr>operation := x\<rparr>) = consistent doc"
  by (simp add: consistent_def artifact_populated_def)

lemma consistent_views [simp]:
  "consistent (doc\<lparr>views := x\<rparr>) = consistent doc"
  by (simp add: consistent_def artifact_populated_def)

lemma updateStatus_world: "snd (updateStatus s m doc w) = save (fst (updateStatus s m doc w)) w"
  by (simp add: updateStatus_def Let_def)

lemma consistent_failed:
  assumes "consistent doc" and "status doc \<noteq> Completed"
  shows "consistent (fst (updateStatus Failed (Some m) doc w))"
  using assms by (auto simp add: updateStatus_def Let_def consistent_def artifact_populated_def)

lemma consistent_processing:
  assumes "consistent doc" and "status doc \<noteq> Completed" and "status doc \<noteq> Failed"
  shows "consistent (fst (updateStatus Processing None doc w))"
  using assms by (auto simp add: updateStatus_def Let_def consistent_def artifact_populated_def)

lemma consistent_completedDoc:
  assumes "consistent doc" and "status doc \<noteq> Failed"
  shows "consistent (completedDoc cfg doc uri md now)"
  using assms by (auto simp add: completedDoc_def consistent_def artifact_populated_def)

lemma handle_consistent:
  assumes "all_consistent w" and "consistent doc"
    and "status doc \<noteq> Completed" and "status doc \<noteq> Failed"
  shows "all_consistent (snd (handleSuccessfulGeneration cfg doc st w))"
proof -
  have f: "\<And>m. all_consistent (snd (failGeneration m doc w))"
    unfolding failGeneration_def snd_conv updateStatus_world
    by (rule all_consistent_save [OF assms(1) consistent_failed [OF assms(2,3)]])
  show ?thesis
  proof (cases "truthy (payloadUri st) \<and> bucket_ok cfg")
    case False
    then show ?thesis using f by (auto simp add: handleSuccessfulGeneration_def Let_def)
  next
    case True
    show ?thesis
    proof (cases "getMetadata (gcsPathOf cfg (the (payloadUri st))) (files w)")
      case None
      then show ?thesis using True f by (simp add: handleSuccessfulGeneration_def Let_def)
    next
      case (Some md)
      have "all_consistent (save (completedDoc cfg doc (the (payloadUri st)) md (clock w)) w)"
        by (rule all_consistent_save [OF assms(1) consistent_completedDoc [OF assms(2,4)]])
      then show ?thesis using True Some by (simp add: handle_success)
    qed
  qed
qed

lemma snd_completeOrThrow:
  "snd (completeOrThrow cfg d st w) = snd (handleSuccessfulGeneration cfg d st w)"
  by (auto simp add: completeOrThrow_def split: prod.splits sum.splits)

lemma pollAttempt_consistent:
  assumes "all_consistent w" and "findById videoId (db w) = Some doc"
    and "status doc \<noteq> Completed" and "status doc \<noteq> Failed"
  shows "all_consistent (snd (pollAttempt cfg prov videoId w))"
proof -
  have c: "consistent doc" by (rule all_consistent_find [OF assms(1,2)])
  define r where "r = (if truthy (op_name (operation doc)) then
                   case checkOperationStatus cfg prov (clock w) (the (op_name (operation doc))) of
                     Inl m \<Rightarrow> (None, doc, w)
                   | Inr st \<Rightarrow>
                       let d = doc\<lparr>operation := (operation doc)\<lparr>
                                 op_done := s_done st, op_metadata := s_metadata st,
                                 op_response := s_response st, op_error := s_error st\<rparr>\<rparr>
                       in (Some st, d, save d w)
                 else (None, doc, w))"
  obtain os d1 w1 where r: "r = (os, d1, w1)" by (cases r)
  have p: "consistent d1 \<and> status d1 = status doc \<and> all_consistent w1"
    using r c assms(1) unfolding r_def
    by (auto simp add: Let_def all_consistent_save split: if_splits sum.splits)
  have h: "\<And>st. all_consistent (snd (completeOrThrow cfg d1 st w1))"
  proof -
    fix st
    have "all_consistent (snd (handleSuccessfulGeneration cfg d1 st w1))"
      using p assms(3,4) by (intro handle_consistent) simp_all
    then show "all_consistent (snd (completeOrThrow cfg d1 st w1))"
      by (simp add: snd_completeOrThrow)
  qed
  have f: "\<And>m. all_consistent (snd (updateStatus Failed (Some m) d1 w1))"
    unfolding updateStatus_world using p assms(3)
    by (intro all_consistent_save consistent_failed) simp_all
  have "pollAttempt cfg prov videoId w =
          (if (case os of None \<Rightarrow> False | Some st \<Rightarrow> s_done st) then
               let st = the os in
               (case s_error st of
                  Some e \<Rightarrow>
                    let msg = (if truthy (message e) then the (message e)
                               else ''Video generation failed'')
                    in (Thrown msg, snd (updateStatus Failed (Some msg) d1 w1))
                | None \<Rightarrow> completeOrThrow cfg d1 st w1)
             else
               (case checkVideoInBucket cfg w1 videoId of
                  Some bucketVideoUri \<Rightarrow> completeOrThrow cfg d1 (mockStatus bucketVideoUri) w1
                | None \<Rightarrow> (Continue, w1)))"
    using assms(2) r unfolding pollAttempt_def r_def by simp
  then show ?thesis using h f p by (simp add: Let_def split: option.splits)
qed

lemma sweepLoop_consistent:
  "all_consistent w \<Longrightarrow> \<forall>d\<in>set docs. consistent d \<and> status d = Processing
     \<Longrightarrow> all_consistent (fst (sweepLoop cfg docs (w, n)))"
proof (induction docs arbitrary: w n)
  case Nil
  then show ?case by simp
next
  case (Cons doc docs)
  have rest: "\<forall>d\<in>set docs. consistent d \<and> status d = Processing" using Cons.prems(2) by simp
  have d: "consistent doc" "status doc \<noteq> Completed" "status doc \<noteq> Failed"
    using Cons.prems(2) by simp_all
  show ?case
  proof (cases "checkVideoInBucket cfg w (vid doc)")
    case None
    then show ?thesis using Cons.IH [OF Cons.prems(1) rest] by simp
  next
    case (Some uri)
    obtain r w1 where h: "handleSuccessfulGeneration cfg doc (mockStatus uri) w = (r, w1)"
      by (cases "handleSuccessfulGeneration cfg doc (mockStatus uri) w")
    have "all_consistent w1"
      using handle_consistent [OF Cons.prems(1) d, of cfg "mockStatus uri"] h by simp
    from Cons.IH [OF this rest] show ?thesis using Some h by (cases r) simp_all
  qed
qed

text \<open>
  Claim C5, amended. Let every job of the collection satisfy "artifact iff completed,
  error message iff failed". Then every job still satisfies it after the sweep and after
  the force completion check (both act on jobs in processing only); and, for a job that
  is pending or processing, after one poll attempt, after the completion handler, after
  the job is marked failed and after it is marked processing. (No write clears the
  artifact or the error message, so the handler or a failure mark applied to a job that
  is already completed or failed can break it.)
\<close>

theorem consistency_preserved:
  assumes "all_consistent w"
  shows "all_consistent (snd (checkAndCompleteStuckVideos cfg w))
       \<and> all_consistent (snd (forceCompletionCheck cfg videoId w))
       \<and> (\<forall>doc. findById videoId (db w) = Some doc
                 \<longrightarrow> status doc \<noteq> Completed \<longrightarrow> status doc \<noteq> Failed
                 \<longrightarrow> all_consistent (snd (pollAttempt cfg prov videoId w))
                   \<and> all_consistent (snd (handleSuccessfulGeneration cfg doc st w))
                   \<and> all_consistent (snd (updateStatus Failed (Some msg) doc w))
                   \<and> all_consistent (snd (updateStatus Processing None doc w)))"
proof (intro conjI allI impI)
  have "\<forall>d\<in>set (filter (\<lambda>v. status v = Processing) (db w)).
          consistent d \<and> status d = Processing"
    using assms by (simp add: all_consistent_def list_all_iff)
  from sweepLoop_consistent [OF assms this, of cfg 0]
  show "all_consistent (snd (checkAndCompleteStuckVideos cfg w))"
    by (simp add: checkAndCompleteStuckVideos_def Let_def split_beta)
next
  show "all_consistent (snd (forceCompletionCheck cfg videoId w))"
  proof (cases "findById videoId (db w)")
    case None
    then show ?thesis using assms by (simp add: forceCompletionCheck_def)
  next
    case (Some doc)
    show ?thesis
    proof (cases "status doc = Processing")
      case False
      then show ?thesis using Some assms by (simp add: forceCompletionCheck_def)
    next
      case True
      have hc: "\<And>st. all_consistent (snd (handleSuccessfulGeneration cfg doc st w))"
        using True by (intro handle_consistent assms all_consistent_find [OF assms Some]) simp_all
      show ?thesis
      proof (cases "checkVideoInBucket cfg w videoId")
        case None
        then show ?thesis using Some True assms by (simp add: forceCompletionCheck_def)
      next
        case (Some uri)
        obtain r w1 where h: "handleSuccessfulGeneration cfg doc (mockStatus uri) w = (r, w1)"
          by (cases "handleSuccessfulGeneration cfg doc (mockStatus uri) w")
        have "all_consistent w1" using hc [of "mockStatus uri"] h by simp
        then show ?thesis using Some True h \<open>findById videoId (db w) = Some doc\<close>
          by (cases r) (simp_all add: forceCompletionCheck_def)
      qed
    qed
  qed
next
  fix doc
  assume f: "findById videoId (db w) = Some doc"
    and s: "status doc \<noteq> Completed" "status doc \<noteq> Failed"
  have c: "consistent doc" by (rule all_consistent_find [OF assms f])
  show "all_consistent (snd (pollAttempt cfg prov videoId w))"
    by (rule pollAttempt_consistent [OF assms f s])
  show "all_consistent (snd (handleSuccessfulGeneration cfg doc st w))"
    by (rule handle_consistent [OF assms c s])
  show "all_consistent (snd (updateStatus Failed (Some msg) doc w))"
    unfolding updateStatus_world
    by (rule all_consistent_save [OF assms consistent_failed [OF c s(1)]])
  show "all_consistent (snd (updateStatus Processing None doc w))"
    unfolding updateStatus_world
    by (rule all_consistent_save [OF assms consistent_processing [OF c s]])
qed

theorem consistency_preserved_witness:
  "all_consistent demo_world
   \<and> findById 1 (db demo_world) = Some demo_job
   \<and> status demo_job \<noteq> Completed \<and> status demo_job \<noteq> Failed
   \<and> all_consistent (snd (checkAndCompleteStuckVideos demo_cfg demo_world))
   \<and> all_consistent (snd (pollAttempt demo_cfg error_provider 1 demo_world))
   \<and> all_consistent (snd (handleSuccessfulGeneration demo_cfg demo_job demo_done demo_world))"
proof -
  have h1: "all_consistent demo_world"
    by (simp add: all_consistent_def consistent_def artifact_populated_def demo_defs)
  have h2: "findById 1 (db demo_world) = Some demo_job" by (simp add: demo_defs code_defs)
  have h3: "status demo_job \<noteq> Completed" "status demo_job \<noteq> Failed"
    by (simp_all add: demo_defs)
  from consistency_preserved [OF h1, of demo_cfg 1 error_provider demo_done] h1 h2 h3
  show ?thesis by blast
qed

section \<open>The sweep over the jobs in processing\<close>

lemma replace_prefix: "p \<noteq> [] \<Longrightarrow> replace (p @ s) p [] = s"
  by (cases p) (simp_all add: startsWith_def)

lemma gcsPathOf_objectUri: "gcsPathOf cfg (objectUri cfg f) = name f"
proof -
  have "replace ((''gs://'' @ BUCKET_NAME cfg @ ''/'') @ name f)
          (''gs://'' @ BUCKET_NAME cfg @ ''/'') [] = name f"
    by (rule replace_prefix) simp
  then show ?thesis by (simp add: gcsPathOf_def objectUri_def)
qed

lemma find_filter: "(\<And>x. P x \<Longrightarrow> Q x) \<Longrightarrow> find P (filter Q xs) = find P xs"
  by (induction xs) auto

lemma getMetadata_listing:
  assumes "startsWith n pre"
  shows "getMetadata n fs = find (\<lambda>g. name g = n) (getFiles pre fs)"
  unfolding getMetadata_def getFiles_def
  using assms by (intro find_filter [symmetric]) simp

lemma getFiles_remove:
  assumes "\<not> startsWith p pre"
  shows "getFiles pre (filter (\<lambda>f. name f \<noteq> p) fs) = getFiles pre fs"
  unfolding getFiles_def filter_filter
  using assms by (intro filter_cong) auto

lemma getFiles_cleanup:
  assumes "truthy u \<longrightarrow> \<not> startsWith (gcsPathOf cfg (the u)) pre"
  shows "getFiles pre (files (cleanupTemporaryImage cfg u w)) = getFiles pre (files w)"
  using assms by (simp add: cleanupTemporaryImage_def Let_def getFiles_remove)

lemma candidate_in_listing:
  assumes "candidateFor listing doc = Some f"
  shows "f \<in> set listing"
proof -
  from assms obtain t0 where s: "fst (scanFiles t0 listing (None, 0)) = Some f"
    by (auto simp add: candidateFor_def split: option.splits)
  then have "filter (qualifies t0) listing \<noteq> []" using scan_none [of t0 listing] by auto
  from scan_some [OF this] s obtain pre post
    where "filter (qualifies t0) listing = pre @ f # post" by auto
  then have "f \<in> set (filter (qualifies t0) listing)" by simp
  then show ?thesis by simp
qed

lemma findById_distinct:
  "distinct (map vid d) \<Longrightarrow> x \<in> set d \<Longrightarrow> findById (vid x) d = Some x"
  unfolding findById_def by (induction d) force+

lemma checkVideoInBucket_candidateFor:
  "checkVideoInBucket cfg w i =
     (if bucket_ok cfg then
        (case findById i (db w) of
           None \<Rightarrow> None
         | Some doc \<Rightarrow>
             map_option (objectUri cfg) (candidateFor (getFiles ''generated-videos/'' (files w)) doc))
      else None)"
  by (simp add: checkVideoInBucket_def candidateFor_def objectUri_def
        split: option.splits)

lemma payload_mockStatus: "uri \<noteq> [] \<Longrightarrow> payloadUri (mockStatus uri) = Some uri"
  by (simp add: payloadUri_def mockStatus_def truthy_def)

lemma objectUri_nonempty: "objectUri cfg f \<noteq> []"
  by (simp add: objectUri_def)

lemma map_vid_save: "map vid (db (save v w)) = map vid (db w)"
  by (simp add: save_def)

lemma files_save [simp]: "files (save v w) = files w"
  by (simp add: save_def)

lemma clock_save [simp]: "clock (save v w) = clock w"
  by (simp add: save_def)

text \<open>One turn of the loop on a job whose scan finds the object \<open>f\<close>.\<close>

lemma sweep_turn:
  assumes "bucket_ok cfg"
    and "getFiles ''generated-videos/'' (files w) = L"
    and "findById (vid doc) (db w) = Some doc"
    and "candidateFor L doc = Some f"
    and "truthy (image_gcsUri (inputImage doc))
           \<longrightarrow> \<not> startsWith (gcsPathOf cfg (the (image_gcsUri (inputImage doc))))
                  ''generated-videos/''"
  shows "\<exists>w1. sweepLoop cfg (doc # rest) (w, n) = sweepLoop cfg rest (w1, n + 1)
           \<and> db w1 = map (\<lambda>u. if vid u = vid doc then finish cfg L (clock w) doc else u) (db w)
           \<and> getFiles ''generated-videos/'' (files w1) = L
           \<and> clock w1 = clock w"
proof -
  let ?uri = "objectUri cfg f"
  have mem: "f \<in> set L" by (rule candidate_in_listing [OF assms(4)])
  then have sw: "startsWith (name f) ''generated-videos/''"
    using assms(2) by (auto simp add: getFiles_def)
  have chk: "checkVideoInBucket cfg w (vid doc) = Some ?uri"
    using assms(1-4) by (simp add: checkVideoInBucket_candidateFor)
  have "find (\<lambda>g. name g = name f) L \<noteq> None"
    using mem by (auto simp add: find_None_iff)
  then obtain md where md: "find (\<lambda>g. name g = name f) L = Some md" by auto
  have pay: "payloadUri (mockStatus ?uri) = Some ?uri"
    by (rule payload_mockStatus [OF objectUri_nonempty])
  have t: "truthy (payloadUri (mockStatus ?uri))"
    by (simp add: pay truthy_def objectUri_nonempty)
  have gm: "getMetadata (gcsPathOf cfg (the (payloadUri (mockStatus ?uri)))) (files w) = Some md"
    using md assms(2) by (simp add: pay gcsPathOf_objectUri getMetadata_listing [OF sw])
  let ?d = "completedDoc cfg doc ?uri md (clock w)"
  let ?w1 = "(if truthy (image_gcsUri (inputImage doc))
               then cleanupTemporaryImage cfg (image_gcsUri (inputImage doc))
               else id) (save ?d w)"
  have h: "handleSuccessfulGeneration cfg doc (mockStatus ?uri) w = (Inr (), ?w1)"
    using handle_success [OF t assms(1) gm, of doc] by (simp add: pay)
  have fin: "finish cfg L (clock w) doc = ?d"
    by (simp add: finish_def assms(4) md)
  have a: "sweepLoop cfg (doc # rest) (w, n) = sweepLoop cfg rest (?w1, n + 1)"
    by (simp add: chk h)
  have b: "db ?w1 = map (\<lambda>u. if vid u = vid doc then finish cfg L (clock w) doc else u) (db w)"
    by (simp add: fin save_def completedDoc_def)
  have c: "getFiles ''generated-videos/'' (files ?w1) = L"
    using assms(2,5) by (simp add: getFiles_cleanup)
  have d: "clock ?w1 = clock w" by simp
  from a b c d show ?thesis by blast
qed

lemma vid_finish [simp]: "vid (finish cfg L T d) = vid d"
  by (simp add: finish_def completedDoc_def split: option.splits)

lemma sweepLoop_spec:
  assumes "bucket_ok cfg"
  shows "getFiles ''generated-videos/'' (files w) = L \<Longrightarrow> clock w = T
     \<Longrightarrow> distinct (map vid (db w)) \<Longrightarrow> set docs \<subseteq> set (db w) \<Longrightarrow> distinct (map vid docs)
     \<Longrightarrow> images_apart cfg docs
     \<Longrightarrow> snd (sweepLoop cfg docs (w, n))
           = n + length (filter (\<lambda>d. candidateFor L d \<noteq> None) docs)
       \<and> db (fst (sweepLoop cfg docs (w, n)))
           = map (\<lambda>d. if d \<in> set docs then finish cfg L T d else d) (db w)"
proof (induction docs arbitrary: w n)
  case Nil
  show ?case by simp
next
  case (Cons doc rest)
  have inw: "doc \<in> set (db w)" using Cons.prems(4) by simp
  have fnd: "findById (vid doc) (db w) = Some doc"
    by (rule findById_distinct [OF Cons.prems(3) inw])
  have rest_sub: "set rest \<subseteq> set (db w)" using Cons.prems(4) by simp
  have rest_dist: "distinct (map vid rest)" using Cons.prems(5) by simp
  have rest_apart: "images_apart cfg rest" using Cons.prems(6) by (simp add: images_apart_def)
  have "vid doc \<notin> vid ` set rest" using Cons.prems(5) by simp
  then have notin: "\<And>x. x \<in> set rest \<Longrightarrow> vid x \<noteq> vid doc" by (metis imageI)
  show ?case
  proof (cases "candidateFor L doc")
    case None
    have chk: "checkVideoInBucket cfg w (vid doc) = None"
      using assms fnd None Cons.prems(1) by (simp add: checkVideoInBucket_candidateFor)
    have step: "sweepLoop cfg (doc # rest) (w, n) = sweepLoop cfg rest (w, n)"
      by (simp add: chk)
    have same: "finish cfg L T doc = doc" by (simp add: finish_def None)
    have "map (\<lambda>d. if d \<in> set rest then finish cfg L T d else d) (db w)
            = map (\<lambda>d. if d \<in> set (doc # rest) then finish cfg L T d else d) (db w)"
      using same by (intro map_cong) auto
    with Cons.IH [OF Cons.prems(1,2,3) rest_sub rest_dist rest_apart, of n]
    show ?thesis unfolding step by (simp add: None)
  next
    case (Some f)
    have img: "truthy (image_gcsUri (inputImage doc))
           \<longrightarrow> \<not> startsWith (gcsPathOf cfg (the (image_gcsUri (inputImage doc))))
                  ''generated-videos/''"
      using Cons.prems(6) by (simp add: images_apart_def)
    from sweep_turn [OF assms Cons.prems(1) fnd Some img, of rest n]
    obtain w1 where
      step: "sweepLoop cfg (doc # rest) (w, n) = sweepLoop cfg rest (w1, n + 1)"
      and dbw1: "db w1 = map (\<lambda>u. if vid u = vid doc then finish cfg L (clock w) doc else u) (db w)"
      and l1: "getFiles ''generated-videos/'' (files w1) = L"
      and c1: "clock w1 = clock w"
      by blast
    have t1: "clock w1 = T" using c1 Cons.prems(2) by simp
    have d1: "distinct (map vid (db w1))"
    proof -
      have "map vid (db w1) = map vid (db w)" by (simp add: dbw1 o_def cong: map_cong)
      then show ?thesis using Cons.prems(3) by simp
    qed
    have s1: "set rest \<subseteq> set (db w1)"
    proof
      fix x assume x: "x \<in> set rest"
      then have "x \<in> set (db w)" using rest_sub by auto
      moreover have "vid x \<noteq> vid doc" by (rule notin [OF x])
      ultimately show "x \<in> set (db w1)" unfolding dbw1 by force
    qed
    have "map (\<lambda>d. if d \<in> set rest then finish cfg L T d else d) (db w1)
            = map (\<lambda>d. if d \<in> set (doc # rest) then finish cfg L T d else d) (db w)"
    proof -
      have "\<And>u. u \<in> set (db w) \<Longrightarrow>
               (\<lambda>d. if d \<in> set rest then finish cfg L T d else d)
                 (if vid u = vid doc then finish cfg L (clock w) doc else u)
               = (if u \<in> set (doc # rest) then finish cfg L T u else u)"
      proof -
        fix u assume u: "u \<in> set (db w)"
        show "(\<lambda>d. if d \<in> set rest then finish cfg L T d else d)
                 (if vid u = vid doc then finish cfg L (clock w) doc else u)
               = (if u \<in> set (doc # rest) then finish cfg L T u else u)"
        proof (cases "vid u = vid doc")
          case True
          have "u = doc"
            using True u inw Cons.prems(3) by (simp add: distinct_map inj_on_def)
          moreover have "finish cfg L T doc \<notin> set rest"
            using notin [of "finish cfg L T doc"] by auto
          ultimately show ?thesis using Cons.prems(2) by simp
        next
          case False
          then have "u \<noteq> doc" by auto
          then show ?thesis using False by simp
        qed
      qed
      then show ?thesis unfolding dbw1 map_map o_def by (intro map_cong) simp_all
    qed
    with Cons.IH [OF l1 t1 d1 s1 rest_dist rest_apart, of "n + 1"]
    show ?thesis unfolding step by (simp add: Some)
  qed
qed

lemma sweepLoop_no_bucket:
  "\<not> bucket_ok cfg \<Longrightarrow> sweepLoop cfg docs (w, n) = (w, n)"
  by (induction docs) (simp_all add: checkVideoInBucket_def)


lemma sweptDoc_finish:
  assumes "bucket_ok cfg" and "distinct (map vid (db w))" and "d \<in> set (db w)"
  shows "sweptDoc cfg w d
           = (if status d = Processing
              then finish cfg (getFiles ''generated-videos/'' (files w)) (clock w) d else d)"
proof -
  let ?L = "getFiles ''generated-videos/'' (files w)"
  have fnd: "findById (vid d) (db w) = Some d" by (rule findById_distinct [OF assms(2,3)])
  have chk: "checkVideoInBucket cfg w (vid d) = map_option (objectUri cfg) (candidateFor ?L d)"
    using assms(1) fnd by (simp add: checkVideoInBucket_candidateFor)
  show ?thesis
  proof (cases "candidateFor ?L d")
    case None
    then show ?thesis by (simp add: sweptDoc_def chk finish_def)
  next
    case (Some f)
    have "f \<in> set ?L" by (rule candidate_in_listing [OF Some])
    then have sw: "startsWith (name f) ''generated-videos/''" by (auto simp add: getFiles_def)
    show ?thesis
      by (simp add: sweptDoc_def chk finish_def Some gcsPathOf_objectUri
            getMetadata_listing [OF sw])
  qed
qed

text \<open>
  Claim C9. Document ids are unique and no input image lies under the output prefix
  \<^verbatim>\<open>generated-videos/\<close>. Of the jobs of the collection, N are in processing, and for
  M of these the bucket scan finds a candidate. The sweep returns the pair (M, N);
  afterwards each of the M jobs is completed with its candidate as the artifact's
  location, and every other job, in processing or not, is exactly as it was.
\<close>

theorem sweep_completes_exactly_candidates:
  assumes "distinct (map vid (db w))"
    and "images_apart cfg (db w)"
  shows "fst (checkAndCompleteStuckVideos cfg w)
           = (length (filter (\<lambda>d. status d = Processing
                                 \<and> checkVideoInBucket cfg w (vid d) \<noteq> None) (db w)),
              length (filter (\<lambda>d. status d = Processing) (db w)))
       \<and> db (snd (checkAndCompleteStuckVideos cfg w)) = map (sweptDoc cfg w) (db w)
       \<and> (\<forall>d\<in>set (db w).
            if status d = Processing \<and> checkVideoInBucket cfg w (vid d) \<noteq> None
            then status (sweptDoc cfg w d) = Completed
               \<and> gcsUri (video (sweptDoc cfg w d)) = checkVideoInBucket cfg w (vid d)
            else sweptDoc cfg w d = d)"
proof -
  let ?L = "getFiles ''generated-videos/'' (files w)"
  let ?docs = "filter (\<lambda>v. status v = Processing) (db w)"
  have third: "\<forall>d\<in>set (db w).
            if status d = Processing \<and> checkVideoInBucket cfg w (vid d) \<noteq> None
            then status (sweptDoc cfg w d) = Completed
               \<and> gcsUri (video (sweptDoc cfg w d)) = checkVideoInBucket cfg w (vid d)
            else sweptDoc cfg w d = d"
    by (auto simp add: sweptDoc_def completedDoc_def)
  show ?thesis
  proof (cases "bucket_ok cfg")
    case False
    have none: "\<And>i. checkVideoInBucket cfg w i = None"
      using False by (simp add: checkVideoInBucket_def)
    have "\<And>d. sweptDoc cfg w d = d" by (simp add: sweptDoc_def none)
    then have "map (sweptDoc cfg w) (db w) = db w" by (intro map_idI)
    then show ?thesis using third
      by (simp add: checkAndCompleteStuckVideos_def Let_def sweepLoop_no_bucket [OF False] none)
  next
    case True
    have sub: "set ?docs \<subseteq> set (db w)" by auto
    have dist: "distinct (map vid ?docs)" using assms(1) by (rule distinct_map_filter)
    have apart: "images_apart cfg ?docs"
      using assms(2) by (simp add: images_apart_def list_all_iff)
    from sweepLoop_spec [OF True refl refl assms(1) sub dist apart, of 0]
    have cnt: "snd (sweepLoop cfg ?docs (w, 0))
                 = length (filter (\<lambda>d. candidateFor ?L d \<noteq> None) ?docs)"
      and dbs: "db (fst (sweepLoop cfg ?docs (w, 0)))
                 = map (\<lambda>d. if d \<in> set ?docs then finish cfg ?L (clock w) d else d) (db w)"
      by simp_all
    have m: "length (filter (\<lambda>d. candidateFor ?L d \<noteq> None) ?docs)
               = length (filter (\<lambda>d. status d = Processing
                                 \<and> checkVideoInBucket cfg w (vid d) \<noteq> None) (db w))"
    proof -
      have "\<And>d. d \<in> set (db w) \<Longrightarrow>
              (status d = Processing \<and> candidateFor ?L d \<noteq> None)
              = (status d = Processing \<and> checkVideoInBucket cfg w (vid d) \<noteq> None)"
        using True by (simp add: checkVideoInBucket_candidateFor findById_distinct [OF assms(1)])
      then have "filter (\<lambda>d. status d = Processing \<and> candidateFor ?L d \<noteq> None) (db w)
                   = filter (\<lambda>d. status d = Processing
                                 \<and> checkVideoInBucket cfg w (vid d) \<noteq> None) (db w)"
        by (intro filter_cong) simp_all
      then show ?thesis by (simp add: conj_commute)
    qed
    have d: "map (\<lambda>d. if d \<in> set ?docs then finish cfg ?L (clock w) d else d) (db w)
               = map (sweptDoc cfg w) (db w)"
      by (intro map_cong) (simp_all add: sweptDoc_finish [OF True assms(1)])
    have "fst (checkAndCompleteStuckVideos cfg w)
            = (snd (sweepLoop cfg ?docs (w, 0)), length ?docs)"
      by (simp add: checkAndCompleteStuckVideos_def Let_def split_beta)
    moreover have "db (snd (checkAndCompleteStuckVideos cfg w))
                     = db (fst (sweepLoop cfg ?docs (w, 0)))"
      by (simp add: checkAndCompleteStuckVideos_def Let_def split_beta)
    ultimately show ?thesis using cnt dbs m d third by simp
  qed
qed

theorem sweep_completes_exactly_candidates_witness:
  "distinct (map vid (db sweep_world)) \<and> images_apart demo_cfg (db sweep_world)
   \<and> map (\<lambda>d. (status d, checkVideoInBucket demo_cfg sweep_world (vid d))) (db sweep_world)
       = [(Processing, Some ''gs://media/generated-videos/clip.mp4''),
          (Processing, None), (Failed, Some ''gs://media/generated-videos/clip.mp4'')]
   \<and> fst (checkAndCompleteStuckVideos demo_cfg sweep_world) = (1, 2)
   \<and> map status (db (snd (checkAndCompleteStuckVideos demo_cfg sweep_world)))
       = [Completed, Processing, Failed]"
proof -
  have h1: "distinct (map vid (db sweep_world))" by (simp add: demo_defs)
  have h2: "images_apart demo_cfg (db sweep_world)"
    by (simp add: images_apart_def demo_defs code_defs)
  have c: "map (\<lambda>d. (status d, checkVideoInBucket demo_cfg sweep_world (vid d))) (db sweep_world)
       = [(Processing, Some ''gs://media/generated-videos/clip.mp4''),
          (Processing, None), (Failed, Some ''gs://media/generated-videos/clip.mp4'')]"
    by (simp add: demo_defs code_defs poll_defs)
  have s: "map status (map (sweptDoc demo_cfg sweep_world) (db sweep_world))
             = [Completed, Processing, Failed]"
    by (simp add: sweptDoc_def completedDoc_def demo_defs code_defs poll_defs)
  have n: "(length (filter (\<lambda>d. status d = Processing
                \<and> checkVideoInBucket demo_cfg sweep_world (vid d) \<noteq> None) (db sweep_world)),
            length (filter (\<lambda>d. status d = Processing) (db sweep_world))) = (1, 2)"
    by (simp add: demo_defs code_defs poll_defs)
  from sweep_completes_exactly_candidates [OF h1 h2] s n
  have "fst (checkAndCompleteStuckVideos demo_cfg sweep_world) = (1, 2)
        \<and> map status (db (snd (checkAndCompleteStuckVideos demo_cfg sweep_world)))
            = [Completed, Processing, Failed]"
    by simp
  with h1 h2 c show ?thesis by blast
qed

section \<open>The budget runs out without an error\<close>

lemma checkVideoInBucket_same:
  assumes "findById i (db w) = Some d" and "findById i (db w') = Some d'"
    and "startedAt (processingInfo d') = startedAt (processingInfo d)"
    and "files w' = files w"
  shows "checkVideoInBucket cfg w' i = checkVideoInBucket cfg w i"
  using assms by (simp add: checkVideoInBucket_candidateFor candidateFor_def)

lemma pollAttempt_continue:
  assumes "findById videoId (db w) = Some doc"
    and "\<forall>t n st. status_reply prov t n = Some st \<longrightarrow> \<not> s_done st"
    and "checkVideoInBucket cfg w videoId = None"
  shows "\<exists>w1 doc1. pollAttempt cfg prov videoId w = (Continue, w1)
           \<and> findById videoId (db w1) = Some doc1
           \<and> status doc1 = status doc
           \<and> processingInfo doc1 = processingInfo doc
           \<and> files w1 = files w \<and> clock w1 = clock w"
proof -
  have v: "vid doc = videoId" using assms(1) by (rule findById_vid)
  show ?thesis
  proof (cases "truthy (op_name (operation doc))
                \<and> isl (checkOperationStatus cfg prov (clock w) (the (op_name (operation doc))))
                    = False")
    case False
    then have "pollAttempt cfg prov videoId w = (Continue, w)"
      using assms(1,3) by (auto simp add: pollAttempt_def Let_def split: sum.splits)
    then show ?thesis using assms(1) by simp
  next
    case True
    then obtain st where
      c: "checkOperationStatus cfg prov (clock w) (the (op_name (operation doc))) = Inr st"
      by (cases "checkOperationStatus cfg prov (clock w) (the (op_name (operation doc)))") auto
    then have "status_reply prov (clock w) (the (op_name (operation doc))) = Some st"
      by (auto simp add: checkOperationStatus_def split: sum.splits option.splits)
    then have nd: "\<not> s_done st" using assms(2) by blast
    let ?d = "doc\<lparr>operation := (operation doc)\<lparr>
                 op_done := s_done st, op_metadata := s_metadata st,
                 op_response := s_response st, op_error := s_error st\<rparr>\<rparr>"
    have f: "findById videoId (db (save ?d w)) = Some ?d"
      using assms(1) v by (simp add: findById_save)
    have "checkVideoInBucket cfg (save ?d w) videoId = checkVideoInBucket cfg w videoId"
      by (rule checkVideoInBucket_same [OF assms(1) f]) simp_all
    then have "pollAttempt cfg prov videoId w = (Continue, save ?d w)"
      using assms(1,3) True c nd by (simp add: pollAttempt_def Let_def)
    then show ?thesis using f by simp
  qed
qed

text \<open>
  For any budget: a job whose operation never reports done and for which the bucket
  scan finds nothing goes through all its attempts, 10 seconds apart, and the loop
  returns normally. The job has the status and the processingInfo it had: it is not
  marked failed and gets no error message.
\<close>

lemma pollLoop_exhausts_quietly:
  assumes "\<forall>t n st. status_reply prov t n = Some st \<longrightarrow> \<not> s_done st"
  shows "nat (maxAttempts - attempts) = k \<Longrightarrow> attempts \<le> maxAttempts
     \<Longrightarrow> findById videoId (db w) = Some doc
     \<Longrightarrow> checkVideoInBucket cfg w videoId = None
     \<Longrightarrow> \<exists>w' doc'. pollLoop (Suc k) cfg prov videoId maxAttempts attempts w = Some (Inr (), w')
           \<and> findById videoId (db w') = Some doc'
           \<and> status doc' = status doc
           \<and> processingInfo doc' = processingInfo doc
           \<and> clock w' = clock w + 10000 * int k"
proof (induction k arbitrary: attempts w doc)
  case 0
  then have "\<not> attempts < maxAttempts" by simp
  then show ?case using "0.prems"(3) by simp
next
  case (Suc k)
  have lt: "attempts < maxAttempts" using Suc.prems(1) by simp
  from pollAttempt_continue [OF Suc.prems(3) assms Suc.prems(4)]
  obtain w1 doc1 where
    r: "pollAttempt cfg prov videoId w = (Continue, w1)"
    and f1: "findById videoId (db w1) = Some doc1"
    and s1: "status doc1 = status doc" "processingInfo doc1 = processingInfo doc"
    and e1: "files w1 = files w" "clock w1 = clock w"
    by blast
  let ?w = "sleep 10000 w1"
  have f: "findById videoId (db ?w) = Some doc1" using f1 by (simp add: sleep_def)
  have c: "checkVideoInBucket cfg ?w videoId = None"
    using checkVideoInBucket_same [OF Suc.prems(3) f, of cfg] s1 e1 Suc.prems(4)
    by (simp add: sleep_def)
  have k: "nat (maxAttempts - (attempts + 1)) = k" using Suc.prems(1) by simp
  have le: "attempts + 1 \<le> maxAttempts" using lt by simp
  have step: "pollLoop (Suc (Suc k)) cfg prov videoId maxAttempts attempts w
                = pollLoop (Suc k) cfg prov videoId maxAttempts (attempts + 1) ?w"
    unfolding pollLoop.simps(2) [of "Suc k"] using lt r by (simp del: pollLoop.simps)
  have t: "clock ?w = clock w + 10000" using e1 by (simp add: sleep_def)
  from Suc.IH [OF k le f c] obtain w' doc' where
    "pollLoop (Suc k) cfg prov videoId maxAttempts (attempts + 1) ?w = Some (Inr (), w')"
    "findById videoId (db w') = Some doc'"
    "status doc' = status doc1" "processingInfo doc' = processingInfo doc1"
    "clock w' = clock ?w + 10000 * int k"
    by blast
  then have "pollLoop (Suc (Suc k)) cfg prov videoId maxAttempts attempts w = Some (Inr (), w')
           \<and> findById videoId (db w') = Some doc'
           \<and> status doc' = status doc
           \<and> processingInfo doc' = processingInfo doc
           \<and> clock w' = clock w + 10000 * int (Suc k)"
    unfolding step t using s1 by (simp del: pollLoop.simps)
  then show ?case by blast
qed

end
